theory Spec2Isabelle
  imports Complex_Main "HOL-Library.Log_Nat"
begin

section \<open>The Receive screen\<close>

text \<open>
  The component class \<^verbatim>\<open>Receive\<close> owns three pieces of mutable data: the instance field
  \<^verbatim>\<open>this.frame\<close> and the two entries of \<^verbatim>\<open>this.state\<close>, \<^verbatim>\<open>message\<close> and
  \<^verbatim>\<open>scramble\<close>.

  The class never initialises \<^verbatim>\<open>this.frame\<close>: it is \<^verbatim>\<open>undefined\<close> until
  \<^verbatim>\<open>componentWillReceiveProps\<close> or \<^verbatim>\<open>componentWillUnmount\<close> assigns it. The three
  operations the code applies to it are written out for every value a JavaScript number
  field can hold here: \<^verbatim>\<open>undefined < 0\<close> and \<^verbatim>\<open>undefined > 3\<close> are false, and
  \<^verbatim>\<open>undefined++\<close> stores \<^verbatim>\<open>NaN\<close>, on which the same holds.
\<close>

datatype counter = Undefined | NotANumber | Num int

fun lt0 :: "counter \<Rightarrow> bool" where
  "lt0 (Num n) = (n < 0)"
| "lt0 _ = False"

fun gt3 :: "counter \<Rightarrow> bool" where
  "gt3 (Num n) = (n > 3)"
| "gt3 _ = False"

fun incr :: "counter \<Rightarrow> counter" where
  "incr (Num n) = Num (n + 1)"
| "incr _ = NotANumber"

record receive =
  frame :: counter
  message :: string
  scramble :: "int list"

text \<open>
  \<^verbatim>\<open>state = { message: '', scramble: new Array(ADDRESS_LENGTH).fill(0) }\<close>.
  The constant \<^verbatim>\<open>ADDRESS_LENGTH\<close> is imported from \<^verbatim>\<open>libs/iota/utils\<close>; it is a
  parameter of the model.
\<close>

definition initial :: "nat \<Rightarrow> receive" where
  "initial ADDRESS_LENGTH =
     \<lparr>frame = Undefined, message = [], scramble = replicate ADDRESS_LENGTH 0\<rparr>"

subsection \<open>The frame loop\<close>

text \<open>
  The body of the \<^verbatim>\<open>for\<close> loop of \<^verbatim>\<open>unscramble\<close>, run over the entries of
  \<^verbatim>\<open>scramble\<close> from index 0 upwards: \<^verbatim>\<open>sum += scramble[i]\<close> and
  \<^verbatim>\<open>scrambleNew.push(Math.max(0, scramble[i] - 15))\<close>.
\<close>

fun decay_loop :: "int list \<Rightarrow> int \<Rightarrow> int list \<Rightarrow> int \<times> int list" where
  "decay_loop [] acc scrambleNew = (acc, scrambleNew)"
| "decay_loop (e # rest) acc scrambleNew =
     decay_loop rest (acc + e) (scrambleNew @ [max 0 (e - 15)])"

text \<open>
  \<^verbatim>\<open>unscramble\<close> returns the updated instance and whether it called
  \<^verbatim>\<open>requestAnimationFrame\<close>. The variable \<^verbatim>\<open>sum\<close> of the source is \<open>acc\<close> here.
  \<^verbatim>\<open>setState\<close> is applied at once, as React applies one that is issued from an
  animation-frame callback, outside its own event handlers.
\<close>

definition unscramble :: "receive \<Rightarrow> receive \<times> bool" where
  "unscramble c =
     (if lt0 (frame c) then (c, False)
      else
        let (acc, c1) =
              (if gt3 (frame c)
               then (let (acc, scrambleNew) = decay_loop (scramble c) 0 []
                     in (acc, c\<lparr>scramble := scrambleNew, frame := Num 0\<rparr>))
               else (- 1, c));
            c2 = c1\<lparr>frame := incr (frame c1)\<rparr>
        in (c2, acc \<noteq> 0))"

definition componentWillUnmount :: "receive \<Rightarrow> receive" where
  "componentWillUnmount c = c\<lparr>frame := Num (- 1)\<rparr>"

text \<open>
  The display-refresh scheduler keeps count of the callbacks registered by
  \<^verbatim>\<open>requestAnimationFrame\<close>: a refresh runs every callback registered before it, in
  order, and those register the callbacks of the next refresh. \<open>run_pending k c\<close> runs \<open>k\<close> callbacks and returns how many were registered
  meanwhile; \<open>refresh n\<close> lets the display refresh \<open>n\<close> times.
\<close>

fun run_pending :: "nat \<Rightarrow> receive \<Rightarrow> receive \<times> nat" where
  "run_pending 0 c = (c, 0)"
| "run_pending (Suc k) c =
     (let (c1, again) = unscramble c;
          (c2, m) = run_pending k c1
      in (c2, (if again then 1 else 0) + m))"

fun refresh :: "nat \<Rightarrow> receive \<times> nat \<Rightarrow> receive \<times> nat" where
  "refresh 0 w = w"
| "refresh (Suc n) (c, k) = refresh n (run_pending k c)"

subsection \<open>Starting a reveal\<close>

text \<open>
  Modelled from the spec: \<^verbatim>\<open>randomBytes\<close> of \<^verbatim>\<open>libs/crypto\<close>, which is not among the
  sources. The spec has the buffer re-created "with random magnitudes", "one per address
  character position", each a byte. The random source is the parameter \<open>entropy\<close>, whose
  \<open>i\<close>-th draw fills position \<open>i\<close>.
\<close>

definition randomBytes :: "nat \<Rightarrow> (nat \<Rightarrow> nat) \<Rightarrow> int list" where
  "randomBytes n entropy = map (\<lambda>i. int (entropy i mod 256)) [0..<n]"

text \<open>
  The body of the conditional of \<^verbatim>\<open>componentWillReceiveProps\<close>, with the new buffer as
  an argument. React defers a \<^verbatim>\<open>setState\<close> issued inside this lifecycle method until the
  method has returned, so the direct call of \<^verbatim>\<open>unscramble\<close> still reads the old buffer
  and the new one is in place afterwards.
\<close>

definition start :: "int list \<Rightarrow> receive \<Rightarrow> receive \<times> bool" where
  "start buffer c =
     (let (c1, again) = unscramble (c\<lparr>frame := Num 0\<rparr>)
      in (c1\<lparr>scramble := buffer\<rparr>, again))"

subsection \<open>Props, collaborators and effects\<close>

type_synonym password = "nat list option"

record accountMeta =
  meta_type :: string

record account =
  addresses :: "string list option"
    \<comment> \<open>the keys of \<^verbatim>\<open>account.addresses\<close>; \<open>None\<close> when it is \<^verbatim>\<open>undefined\<close> or \<^verbatim>\<open>null\<close>\<close>

record props =
  account :: account
  accountName :: string
  accountMeta :: accountMeta
  receiveAddress :: string
  password :: password
  isSyncing :: bool
  isTransitioning :: bool
  isGeneratingReceiveAddress :: bool
  t :: "string \<Rightarrow> string"

definition componentWillReceiveProps ::
    "nat \<Rightarrow> (nat \<Rightarrow> nat) \<Rightarrow> props \<Rightarrow> props \<Rightarrow> receive \<Rightarrow> receive \<times> bool" where
  "componentWillReceiveProps ADDRESS_LENGTH entropy this_props nextProps c =
     (if isGeneratingReceiveAddress this_props \<and> \<not> isGeneratingReceiveAddress nextProps
      then start (randomBytes ADDRESS_LENGTH entropy) c
      else (c, False))"

datatype exn = TypeError | Thrown string

record notification =
  title :: string
  content :: string

text \<open>
  What \<^verbatim>\<open>seedStore.validateAddress\<close> resolves to: a boolean, or an object that may carry
  a \<^verbatim>\<open>notification\<close>.
\<close>

datatype validity = VBool bool | VObject "notification option"

fun truthy :: "validity \<Rightarrow> bool" where
  "truthy (VBool b) = b"
| "truthy (VObject _) = True"

fun notification_of :: "validity \<Rightarrow> notification option" where
  "notification_of (VBool _) = None"
| "notification_of (VObject n) = n"

text \<open>
  The collaborators: \<^verbatim>\<open>SeedStore\<close> is the table of seed-store classes keyed by account
  type (\<^verbatim>\<open>libs/SeedStore\<close>), each entry a constructor that may throw, and
  \<^verbatim>\<open>validateAddress\<close> is the method of the constructed object.
\<close>

record 'ss collaborators =
  SeedStore :: "string \<rightharpoonup> (password \<Rightarrow> string \<Rightarrow> accountMeta \<Rightarrow> exn + 'ss)"
  validateAddress :: "'ss \<Rightarrow> int \<Rightarrow> exn + validity"

datatype logged = LogValid validity | LogError exn

datatype 'ss effect =
    NewSeedStore string password string accountMeta
  | ValidateAddress 'ss int
  | GenerateNewAddress 'ss string account
  | GenerateAlert string string string
  | HistoryPush string
  | ConsoleLog logged

text \<open>
  \<^verbatim>\<open>await new SeedStore[accountMeta.type](password, accountName, accountMeta)\<close>: a type
  with no entry in the table makes \<^verbatim>\<open>new\<close> throw before any constructor runs.
\<close>

definition new_SeedStore ::
    "'ss collaborators \<Rightarrow> props \<Rightarrow> 'ss effect list \<times> (exn + 'ss)" where
  "new_SeedStore col p =
     (case SeedStore col (meta_type (accountMeta p)) of
        None \<Rightarrow> ([], Inl TypeError)
      | Some ctor \<Rightarrow>
          ([NewSeedStore (meta_type (accountMeta p)) (password p) (accountName p) (accountMeta p)],
           ctor (password p) (accountName p) (accountMeta p)))"

text \<open>
  The two asynchronous handlers return the component instance (which they never assign
  to), the effects in the order they happen, and how the promise settles.
\<close>

definition onGeneratePress ::
    "'ss collaborators \<Rightarrow> props \<Rightarrow> receive \<Rightarrow> receive \<times> 'ss effect list \<times> (exn + unit)" where
  "onGeneratePress col p c =
     (if isSyncing p \<or> isTransitioning p
      then (c, [GenerateAlert ''error'' (t p ''global:pleaseWait'')
                  (t p ''global:pleaseWaitExplanation'')], Inr ())
      else
        (case new_SeedStore col p of
           (es, Inl e) \<Rightarrow> (c, es, Inl e)
         | (es, Inr seedStore) \<Rightarrow>
             (c, es @ [GenerateNewAddress seedStore (accountName p) (account p)], Inr ())))"

text \<open>
  The call inside the \<^verbatim>\<open>try\<close> block,
  \<^verbatim>\<open>seedStore.validateAddress(Object.keys(account.addresses).length - 1)\<close>:
  \<^verbatim>\<open>Object.keys\<close> throws on \<^verbatim>\<open>undefined\<close> and \<^verbatim>\<open>null\<close>, before the collaborator is
  reached.
\<close>

definition validate_call ::
    "'ss collaborators \<Rightarrow> props \<Rightarrow> 'ss \<Rightarrow> 'ss effect list \<times> (exn + validity)" where
  "validate_call col p seedStore =
     (case addresses (account p) of
        None \<Rightarrow> ([], Inl TypeError)
      | Some keys \<Rightarrow>
          ([ValidateAddress seedStore (int (length keys) - 1)],
           validateAddress col seedStore (int (length keys) - 1)))"

definition validateAdress ::
    "'ss collaborators \<Rightarrow> props \<Rightarrow> receive \<Rightarrow> receive \<times> 'ss effect list \<times> (exn + unit)" where
  "validateAdress col p c =
     (case new_SeedStore col p of
        (es, Inl e) \<Rightarrow> (c, es, Inl e)
      | (es, Inr seedStore) \<Rightarrow>
          (case validate_call col p seedStore of
             (vs, Inr valid) \<Rightarrow>
               (c, es @ vs @ [ConsoleLog (LogValid valid)] @
                   (if \<not> truthy valid then [HistoryPush ''/wallet/'']
                    else (case notification_of valid of
                            Some n \<Rightarrow> [GenerateAlert ''success'' (t p (title n)) (t p (content n))]
                          | None \<Rightarrow> [])),
                Inr ())
           | (vs, Inl err) \<Rightarrow>
               (c, es @ vs @ [ConsoleLog (LogError err), HistoryPush ''/wallet/''], Inr ())))"

subsection \<open>Rendering the address\<close>

text \<open>
  \<^verbatim>\<open>scrambleChar || char\<close>: the left operand unless it is \<^verbatim>\<open>null\<close> or the empty
  string.
\<close>

fun js_or :: "string option \<Rightarrow> string \<Rightarrow> string" where
  "js_or None char = char"
| "js_or (Some s) char = (if s = [] then char else s)"

text \<open>
  The fragments of the paragraph that shows the address, one per character of
  \<^verbatim>\<open>receiveAddress\<close>. \<^verbatim>\<open>byteToChar\<close> (\<^verbatim>\<open>libs/helpers\<close>) is a parameter: a mapping
  from a magnitude to one character. Reading \<^verbatim>\<open>scramble[index]\<close> past the end of the
  buffer gives \<^verbatim>\<open>undefined\<close>, and \<^verbatim>\<open>undefined > 0\<close> is false.
\<close>

definition render_address :: "(int \<Rightarrow> char) \<Rightarrow> props \<Rightarrow> receive \<Rightarrow> string list" where
  "render_address byteToChar p c =
     map (\<lambda>(char, index).
            let scrambleChar =
                  (if index < length (scramble c) \<and> scramble c ! index > 0
                   then Some [byteToChar (scramble c ! index)] else None)
            in js_or scrambleChar [char])
         (zip (receiveAddress p) [0..<length (receiveAddress p)])"

subsection \<open>Observing a run\<close>

text \<open>
  The scheduler's state after a call made while no callback was outstanding: the one
  callback the call registered, if it did.
\<close>

definition idle_then :: "receive \<times> bool \<Rightarrow> receive \<times> nat" where
  "idle_then w = (case w of (c, again) \<Rightarrow> (c, if again then 1 else 0))"

text \<open>
  A reveal started while \<open>k\<close> callbacks are outstanding: \<^verbatim>\<open>componentWillReceiveProps\<close>
  does not look whether a loop is running, so the callback its call registers joins them.
\<close>

definition start_while :: "int list \<Rightarrow> receive \<times> nat \<Rightarrow> receive \<times> nat" where
  "start_while buffer w =
     (case w of (c, k) \<Rightarrow>
        (case start buffer c of (c', again) \<Rightarrow> (c', k + (if again then 1 else 0))))"

text \<open>A buffer whose entries are non-negative and, position by position, at most those of another.\<close>

abbreviation (input) below :: "int list \<Rightarrow> int list \<Rightarrow> bool" where
  "below new old \<equiv> list_all2 (\<lambda>x y. 0 \<le> x \<and> x \<le> y) new old"

text \<open>The alerts raised and the routes pushed among the effects of a handler.\<close>

fun alerts :: "'ss effect list \<Rightarrow> (string \<times> string \<times> string) list" where
  "alerts [] = []"
| "alerts (GenerateAlert level heading body # es) = (level, heading, body) # alerts es"
| "alerts (_ # es) = alerts es"

fun navigations :: "'ss effect list \<Rightarrow> string list" where
  "navigations [] = []"
| "navigations (HistoryPush route # es) = route # navigations es"
| "navigations (_ # es) = navigations es"

text \<open>
  The instances a mounted component can be in: it starts as \<open>initial\<close>, and each lifecycle
  method, animation frame and edit of the message field (\<^verbatim>\<open>setState({ message: value })\<close>)
  leads from one to the next.
\<close>

inductive reachable :: "nat \<Rightarrow> receive \<Rightarrow> bool" for ADDRESS_LENGTH :: nat where
  mounted: "reachable ADDRESS_LENGTH (initial ADDRESS_LENGTH)"
| received: "reachable ADDRESS_LENGTH c \<Longrightarrow>
     reachable ADDRESS_LENGTH
       (fst (componentWillReceiveProps ADDRESS_LENGTH entropy this_props nextProps c))"
| animated: "reachable ADDRESS_LENGTH c \<Longrightarrow> reachable ADDRESS_LENGTH (fst (unscramble c))"
| edited: "reachable ADDRESS_LENGTH c \<Longrightarrow> reachable ADDRESS_LENGTH (c\<lparr>message := v\<rparr>)"
| unmounted: "reachable ADDRESS_LENGTH c \<Longrightarrow> reachable ADDRESS_LENGTH (componentWillUnmount c)"

text \<open>
  A table with the one seed-store class \<^verbatim>\<open>keychain\<close>, whose constructor succeeds and
  whose \<^verbatim>\<open>validateAddress\<close> settles as \<open>r\<close>.
\<close>

definition keychain :: "exn + validity \<Rightarrow> unit collaborators" where
  "keychain r =
     \<lparr>SeedStore = [''keychain'' \<mapsto> (\<lambda>password accountName accountMeta. Inr ())],
      validateAddress = (\<lambda>seedStore index. r)\<rparr>"

section \<open>Market data actions\<close>

subsection \<open>JavaScript numbers\<close>

text \<open>
  A Number is \<^verbatim>\<open>NaN\<close>, one of the two infinities, or a finite binary64 value, carried as
  the rational it denotes. The model has one zero: \<^verbatim>\<open>-0\<close> and \<^verbatim>\<open>0\<close>, which
  \<^verbatim>\<open>===\<close> does not tell apart either, are both \<open>Finite 0\<close>.
\<close>

datatype number = NaN | PosInfinity | NegInfinity | Finite rat

definition pow2 :: "int \<Rightarrow> rat" where
  "pow2 e = (if 0 \<le> e then 2 ^ nat e else 1 / 2 ^ nat (- e))"

text \<open>The binary exponent of a positive rational: the \<open>e\<close> with \<open>2\<^sup>e \<le> a < 2\<^sup>e\<^sup>+\<^sup>1\<close>.\<close>

definition ilog2 :: "rat \<Rightarrow> int" where
  "ilog2 a =
     (let (p, q) = quotient_of a;
          d = bitlen p - bitlen q
      in if pow2 d \<le> a then d else d - 1)"

definition round_half_even :: "rat \<Rightarrow> int" where
  "round_half_even x =
     (let f = \<lfloor>x\<rfloor>; r = x - of_int f
      in if r < 1 / 2 then f
         else if 1 / 2 < r then f + 1
         else if even f then f else f + 1)"

text \<open>
  Rounding an exact result to binary64, to nearest with ties to even: 53 significant bits,
  the least exponent that of the subnormals (\<open>2\<^sup>-\<^sup>1\<^sup>0\<^sup>7\<^sup>4\<close>), overflow to an infinity
  from \<open>2\<^sup>1\<^sup>0\<^sup>2\<^sup>4\<close> on.
\<close>

definition binary64 :: "rat \<Rightarrow> number" where
  "binary64 x =
     (if x = 0 then Finite 0
      else
        let a = \<bar>x\<bar>;
            q = max (ilog2 a - 52) (- 1074);
            v = of_int (round_half_even (a / pow2 q)) * pow2 q
        in if pow2 1024 \<le> v then (if x < 0 then NegInfinity else PosInfinity)
           else Finite (if x < 0 then - v else v))"

fun negative :: "number \<Rightarrow> bool" where
  "negative NegInfinity = True"
| "negative (Finite x) = (x < 0)"
| "negative _ = False"

definition infinity :: "bool \<Rightarrow> number" where
  "infinity neg = (if neg then NegInfinity else PosInfinity)"

text \<open>The operators \<^verbatim>\<open>*\<close> and \<^verbatim>\<open>/\<close> on Numbers.\<close>

fun js_times :: "number \<Rightarrow> number \<Rightarrow> number" where
  "js_times NaN _ = NaN"
| "js_times _ NaN = NaN"
| "js_times (Finite x) (Finite y) = binary64 (x * y)"
| "js_times x y =
     (if x = Finite 0 \<or> y = Finite 0 then NaN else infinity (negative x \<noteq> negative y))"

fun js_divide :: "number \<Rightarrow> number \<Rightarrow> number" where
  "js_divide NaN _ = NaN"
| "js_divide _ NaN = NaN"
| "js_divide (Finite x) (Finite y) =
     (if y \<noteq> 0 then binary64 (x / y) else if x = 0 then NaN else infinity (x < 0))"
| "js_divide (Finite x) _ = Finite 0"
| "js_divide x (Finite y) = infinity (negative x \<noteq> (y < 0))"
| "js_divide _ _ = NaN"

text \<open>
  \<^verbatim>\<open>Math.round\<close>: the closest integer, a tie going towards \<open>+\<infinity>\<close>. The result is
  exact: a binary64 value of magnitude \<open>2\<^sup>5\<^sup>2\<close> or more is an integer already.
\<close>

fun Math_round :: "number \<Rightarrow> number" where
  "Math_round (Finite x) = Finite (of_int \<lfloor>x + 1 / 2\<rfloor>)"
| "Math_round x = x"

text \<open>
  \<^verbatim>\<open>parseFloat\<close> of a Number converts it to a string and parses that back. The string
  of a Number is one that reads back as the same Number, so nothing changes.
\<close>

definition parseFloat :: "number \<Rightarrow> number" where
  "parseFloat x = x"

subsection \<open>Numbers as strings\<close>

definition digit_char :: "int \<Rightarrow> char" where
  "digit_char d = char_of (48 + d)"

text \<open>The decimal digits of a non-negative integer.\<close>

function digits :: "int \<Rightarrow> string" where
  "digits n = (if n < 10 then [digit_char n] else digits (n div 10) @ [digit_char (n mod 10)])"
  by pat_completeness auto
termination
  by (relation "measure nat") auto

text \<open>
  The string of a finite Number \<open>x\<close> of magnitude \<open>10\<^sup>2\<^sup>1\<close> or more is in exponential
  notation: with \<open>k\<close> as small as possible, digits \<open>s\<close> (\<open>10\<^sup>k\<^sup>-\<^sup>1 \<le> s < 10\<^sup>k\<close>) and an
  exponent \<open>n\<close> such that \<open>s \<times> 10\<^sup>n\<^sup>-\<^sup>k\<close> reads back as \<open>x\<close>, the closest to \<open>x\<close> if there
  are several. Seventeen digits always suffice for a binary64 value.
\<close>

definition sci_candidates :: "rat \<Rightarrow> nat \<Rightarrow> (nat \<times> int) list" where
  "sci_candidates x k =
     (let n0 = length (digits \<lfloor>x\<rfloor>)
      in concat (map (\<lambda>n. let s = \<lfloor>x / 10 ^ (n - k)\<rfloor>
                          in filter (\<lambda>(n, s). 10 ^ (k - 1) \<le> s \<and> s < 10 ^ k) [(n, s), (n, s + 1)])
                     [n0, n0 + 1]))"

definition sci_value :: "nat \<Rightarrow> nat \<times> int \<Rightarrow> rat" where
  "sci_value k c = (case c of (n, s) \<Rightarrow> of_int s * 10 ^ (n - k))"

definition closer :: "rat \<Rightarrow> nat \<Rightarrow> nat \<times> int \<Rightarrow> nat \<times> int \<Rightarrow> nat \<times> int" where
  "closer x k c d =
     (let dc = \<bar>sci_value k c - x\<bar>; dd = \<bar>sci_value k d - x\<bar>
      in if dd < dc \<or> (dd = dc \<and> even (snd d)) then d else c)"

fun closest :: "rat \<Rightarrow> nat \<Rightarrow> (nat \<times> int) list \<Rightarrow> nat \<times> int" where
  "closest x k [] = (0, 0)"
| "closest x k (c # cs) = foldl (closer x k) c cs"

function shortest :: "rat \<Rightarrow> nat \<Rightarrow> nat \<times> nat \<times> int" where
  "shortest x k =
     (let cs = filter (\<lambda>c. binary64 (sci_value k c) = binary64 x) (sci_candidates x k)
      in if cs \<noteq> [] then (k, closest x k cs)
         else if 17 \<le> k then (k, closest x k (sci_candidates x k))
         else shortest x (Suc k))"
  by pat_completeness auto
termination
  by (relation "measure (\<lambda>(x, k). 17 - k)") auto

definition exponential :: "rat \<Rightarrow> string" where
  "exponential x =
     (case shortest x 1 of (k, n, s) \<Rightarrow>
        (case digits s of
           [] \<Rightarrow> []
         | d # ds \<Rightarrow> d # (if ds = [] then [] else CHR ''.'' # ds) @ ''e+'' @ digits (int n - 1)))"

text \<open>
  \<^verbatim>\<open>Number::toString\<close>, as far as \<^verbatim>\<open>toFixed\<close> calls it: on a Number that is not finite
  or is of magnitude \<open>10\<^sup>2\<^sup>1\<close> or more.
\<close>

fun Number_toString :: "number \<Rightarrow> string" where
  "Number_toString NaN = ''NaN''"
| "Number_toString PosInfinity = ''Infinity''"
| "Number_toString NegInfinity = ''-Infinity''"
| "Number_toString (Finite x) = (if x < 0 then ''-'' @ exponential (- x) else exponential x)"

text \<open>
  \<^verbatim>\<open>Number.prototype.toFixed(f)\<close>: below \<open>10\<^sup>2\<^sup>1\<close> the integer \<open>n\<close> closest to
  \<open>x \<times> 10\<^sup>f\<close> (the larger of two), its digits padded with zeros to \<open>f + 1\<close> places, a
  point before the last \<open>f\<close>, and the sign in front.
\<close>

definition toFixed :: "number \<Rightarrow> nat \<Rightarrow> string" where
  "toFixed x f =
     (case x of
        Finite y \<Rightarrow>
          if 10 ^ 21 \<le> \<bar>y\<bar> then Number_toString x
          else
            let n = \<lfloor>\<bar>y\<bar> * 10 ^ f + 1 / 2\<rfloor>;
                m = digits n;
                m = (if length m \<le> f then replicate (f + 1 - length m) (CHR ''0'') @ m else m);
                m = (if f \<noteq> 0
                     then take (length m - f) m @ ''.'' @ drop (length m - f) m else m)
            in (if y < 0 then ''-'' else []) @ m
      | _ \<Rightarrow> Number_toString x)"

subsection \<open>Values and objects\<close>

text \<open>
  The values a field of the market data holds: a JSON number or \<^verbatim>\<open>null\<close>, and
  \<^verbatim>\<open>undefined\<close> where there is no such field.
\<close>

datatype jsval = JUndefined | JNull | JNum number

fun ToBoolean :: "jsval \<Rightarrow> bool" where
  "ToBoolean JUndefined = False"
| "ToBoolean JNull = False"
| "ToBoolean (JNum NaN) = False"
| "ToBoolean (JNum (Finite x)) = (x \<noteq> 0)"
| "ToBoolean (JNum _) = True"

fun ToNumber :: "jsval \<Rightarrow> number" where
  "ToNumber JUndefined = NaN"
| "ToNumber JNull = Finite 0"
| "ToNumber (JNum x) = x"

text \<open>
  lodash's \<^verbatim>\<open>get(object, path, defaultValue)\<close>: the default stands in for a path that
  resolves to \<^verbatim>\<open>undefined\<close>. An object is given by what its paths resolve to, which
  is \<^verbatim>\<open>undefined\<close> everywhere when the object itself is \<^verbatim>\<open>undefined\<close> or \<^verbatim>\<open>null\<close>.
\<close>

definition get :: "(string \<Rightarrow> jsval) \<Rightarrow> string \<Rightarrow> jsval \<Rightarrow> jsval" where
  "get object path defaultValue =
     (case object path of JUndefined \<Rightarrow> defaultValue | v \<Rightarrow> v)"

text \<open>\<^verbatim>\<open>v || 0\<close>.\<close>

definition js_or_zero :: "jsval \<Rightarrow> jsval" where
  "js_or_zero v = (if ToBoolean v then v else JNum (Finite 0))"

subsection \<open>Action creators\<close>

text \<open>
  An action is its \<^verbatim>\<open>type\<close>, one of the five \<^verbatim>\<open>ActionTypes\<close>, with its payload; the
  fields of a \<^verbatim>\<open>SET_STATISTICS\<close> action are \<^verbatim>\<open>price\<close>, \<^verbatim>\<open>mcap\<close>, \<^verbatim>\<open>volume\<close> and
  \<^verbatim>\<open>change24h\<close>, in this order.
\<close>

datatype ('price, 'chart) action =
    SET_TIMEFRAME string
  | SET_CHART_DATA 'chart
  | SET_STATISTICS (price: jsval) (mcap: number) (volume: number) (change24h: string)
  | SET_CURRENCY string
  | SET_PRICE 'price

definition setMarketData :: "string \<Rightarrow> (string \<Rightarrow> jsval) \<Rightarrow> ('price, 'chart) action" where
  "setMarketData currency data =
     (let price = js_or_zero (get data currency JUndefined);
          mcap = Math_round (ToNumber (get data (currency @ ''_market_cap'') (JNum (Finite 0))));
          volume = Math_round (ToNumber (get data (currency @ ''_24h_vol'') (JNum (Finite 0))));
          changePct24Hours = get data (currency @ ''_24h_change'') (JNum (Finite 0));
          change24h =
            toFixed (parseFloat (js_divide
                       (Math_round (js_times (ToNumber changePct24Hours) (Finite 100)))
                       (Finite 100))) 2
      in SET_STATISTICS price mcap volume change24h)"

text \<open>
  A string with exactly two decimal digits: an optional minus sign, one or more digits, a
  point, and two digits.
\<close>

definition is_digit :: "char \<Rightarrow> bool" where
  "is_digit ch = (ch \<in> set ''0123456789'')"

definition two_decimals :: "string \<Rightarrow> bool" where
  "two_decimals s =
     (let body = (case s of [] \<Rightarrow> [] | ch # rest \<Rightarrow> if ch = CHR ''-'' then rest else s);
          k = length body
      in 4 \<le> k \<and> list_all is_digit (take (k - 3) body) \<and> body ! (k - 3) = CHR ''.''
         \<and> list_all is_digit (drop (k - 2) body))"

text \<open>An object literal: the listed fields, and \<^verbatim>\<open>undefined\<close> at every other path.\<close>

definition object :: "(string \<times> jsval) list \<Rightarrow> string \<Rightarrow> jsval" where
  "object kvs path = (case map_of kvs path of None \<Rightarrow> JUndefined | Some v \<Rightarrow> v)"

subsection \<open>Thunks\<close>

text \<open>
  \<^verbatim>\<open>getState().settings.toLowerCase()\<close>: the state's \<^verbatim>\<open>settings\<close> is \<open>Some s\<close> when it
  is the string \<open>s\<close>; on anything else the method call throws. Strings are ASCII.
\<close>

record state =
  settings :: "string option"

definition toLowerCase :: "string \<Rightarrow> string" where
  "toLowerCase s =
     map (\<lambda>c. if 65 \<le> (of_char c :: nat) \<and> (of_char c :: nat) \<le> 90
              then char_of ((of_char c :: nat) + 32) else c) s"

definition currency_of :: "'a state_scheme \<Rightarrow> exn + string" where
  "currency_of getState =
     (case settings getState of None \<Rightarrow> Inl TypeError | Some s \<Rightarrow> Inr (toLowerCase s))"

definition timeframeMap :: "string \<Rightarrow> nat option" where
  "timeframeMap = map_of [(''24h'', 1), (''7d'', 7), (''1m'', 30)]"

record request =
  ids :: string
  days :: "nat option"
  vs_currencies :: string

text \<open>
  \<^verbatim>\<open>fetchChartData\<close> returns the request it sends and how its promise settles. The price
  API is the parameter \<open>fetchMarketChart\<close>: the \<open>i\<close>-th request of a thunk is rejected
  (\<open>Inl\<close>) or resolves to data whose \<^verbatim>\<open>prices\<close> the promise passes on.
\<close>

function fetchChartData ::
    "(nat \<Rightarrow> request \<Rightarrow> exn + 'prices) \<Rightarrow> nat \<Rightarrow> string \<Rightarrow> string \<Rightarrow>
     request \<times> (exn + 'prices)" where
  "fetchChartData fetchMarketChart i currency timeframe =
     (if timeframe = ''1h'' then fetchChartData fetchMarketChart i currency ''24h''
      else
        let r = \<lparr>ids = ''iota'', days = timeframeMap timeframe, vs_currencies = currency\<rparr>
        in (r, fetchMarketChart i r))"
  by pat_completeness auto
termination
  by (relation "measure (\<lambda>(f, i, c, tf). if tf = ''1h'' then 1 else 0)") auto

text \<open>
  What running a thunk does: the actions passed to \<^verbatim>\<open>dispatch\<close>, the requests sent, the
  errors written to the console, and the local object \<^verbatim>\<open>chartData\<close>.
\<close>

record ('price, 'chart) thunk_run =
  dispatched :: "('price, 'chart) action list"
  requested :: "request list"
  logged :: "exn list"
  chartData :: "string \<rightharpoonup> 'chart"

text \<open>
  One round of the \<^verbatim>\<open>forEach\<close> of \<^verbatim>\<open>getChartData\<close> with the promise chain it starts:
  \<^verbatim>\<open>.then\<close> stores the formatted data under the timeframe, \<^verbatim>\<open>.catch\<close> logs a rejection
  of the request or an exception of \<^verbatim>\<open>formatChartData\<close> (\<^verbatim>\<open>libs/utils\<close>, a parameter).
  The four chains write to four different keys, so the order in which they settle does
  not show in \<^verbatim>\<open>chartData\<close>; the log is kept in the order of the requests.
\<close>

definition chart_step ::
    "(nat \<Rightarrow> request \<Rightarrow> exn + 'prices) \<Rightarrow> ('prices \<Rightarrow> exn + 'chart) \<Rightarrow> string \<Rightarrow>
     ('price, 'chart) thunk_run \<Rightarrow> string \<Rightarrow> ('price, 'chart) thunk_run" where
  "chart_step fetchMarketChart formatChartData currency run timeframe =
     (case fetchChartData fetchMarketChart (length (requested run)) currency timeframe of
        (r, result) \<Rightarrow>
          (case (case result of Inl e \<Rightarrow> Inl e | Inr data \<Rightarrow> formatChartData data) of
             Inr formatted \<Rightarrow>
               run\<lparr>requested := requested run @ [r],
                   chartData := (chartData run)(timeframe \<mapsto> formatted)\<rparr>
           | Inl error \<Rightarrow>
               run\<lparr>requested := requested run @ [r], logged := logged run @ [error]\<rparr>))"

definition getChartData ::
    "(nat \<Rightarrow> request \<Rightarrow> exn + 'prices) \<Rightarrow> ('prices \<Rightarrow> exn + 'chart) \<Rightarrow>
     'a state_scheme \<Rightarrow> exn + ('price, 'chart) thunk_run" where
  "getChartData fetchMarketChart formatChartData getState =
     (case currency_of getState of
        Inl e \<Rightarrow> Inl e
      | Inr currency \<Rightarrow>
          Inr (foldl (chart_step fetchMarketChart formatChartData currency)
                 \<lparr>dispatched = [], requested = [], logged = [], chartData = Map.empty\<rparr>
                 [''24h'', ''7d'', ''1m'', ''1h'']))"

text \<open>
  \<^verbatim>\<open>getMarketData\<close>, whose promise does dispatch: \<open>simple_price\<close> is the price API
  called with the currency, resolving to the \<^verbatim>\<open>iota\<close> entry of its data.
\<close>

definition getMarketData ::
    "(string \<Rightarrow> exn + (string \<Rightarrow> jsval)) \<Rightarrow> 'a state_scheme \<Rightarrow>
     exn + ('price, 'chart) thunk_run" where
  "getMarketData simple_price getState =
     (case currency_of getState of
        Inl e \<Rightarrow> Inl e
      | Inr currency \<Rightarrow>
          (case simple_price currency of
             Inl e \<Rightarrow> Inl e
           | Inr iota \<Rightarrow>
               Inr \<lparr>dispatched = [setMarketData currency iota], requested = [],
                    logged = [], chartData = Map.empty\<rparr>))"

text \<open>
  The store: \<^verbatim>\<open>dispatch\<close> hands each action to the reducer. A thunk that throws before
  it dispatches leaves nothing to reduce.
\<close>

definition dispatched_by :: "exn + ('price, 'chart) thunk_run \<Rightarrow> ('price, 'chart) action list" where
  "dispatched_by outcome = (case outcome of Inl e \<Rightarrow> [] | Inr run \<Rightarrow> dispatched run)"

definition store_after ::
    "('s \<Rightarrow> ('price, 'chart) action \<Rightarrow> 's) \<Rightarrow> 's \<Rightarrow> exn + ('price, 'chart) thunk_run \<Rightarrow> 's" where
  "store_after reducer s outcome = foldl reducer s (dispatched_by outcome)"

section \<open>Properties of the Receive screen\<close>

subsection \<open>One call of \<^verbatim>\<open>unscramble\<close>\<close>

lemma decay_loop_eq:
  "decay_loop xs acc new = (acc + sum_list xs, new @ map (\<lambda>e. max 0 (e - 15)) xs)"
  by (induction xs arbitrary: acc new) simp_all

lemma unscramble_stopped: "lt0 (frame c) \<Longrightarrow> unscramble c = (c, False)"
  by (simp add: unscramble_def)

lemma gt3_not_lt0: "gt3 f \<Longrightarrow> \<not> lt0 f"
  by (cases f) simp_all

lemma unscramble_tick:
  "gt3 (frame c) \<Longrightarrow>
   unscramble c =
     (c\<lparr>scramble := map (\<lambda>e. max 0 (e - 15)) (scramble c), frame := Num 1\<rparr>,
      sum_list (scramble c) \<noteq> 0)"
  by (simp add: unscramble_def gt3_not_lt0 decay_loop_eq)

lemma unscramble_count:
  "\<not> lt0 (frame c) \<Longrightarrow> \<not> gt3 (frame c) \<Longrightarrow>
   unscramble c = (c\<lparr>frame := incr (frame c)\<rparr>, True)"
  by (simp add: unscramble_def)

lemma unscramble_cases:
  "scramble (fst (unscramble c)) =
     (if gt3 (frame c) then map (\<lambda>e. max 0 (e - 15)) (scramble c) else scramble c)"
  by (cases "lt0 (frame c)"; cases "gt3 (frame c)")
     (auto simp: unscramble_stopped unscramble_tick unscramble_count dest: gt3_not_lt0)

text \<open>
  Whether the deferred \<^verbatim>\<open>setState\<close> lands before or after the direct call makes no
  difference: with the counter at 0 that call only counts.
\<close>

lemma start_eq: "start buffer c = (c\<lparr>frame := Num 1, scramble := buffer\<rparr>, True)"
  by (simp add: start_def unscramble_count)

subsection \<open>Refreshes\<close>

lemma refresh_zero_pending: "refresh n (c, 0) = (c, 0)"
  by (induction n) simp_all

lemma refresh_add: "refresh (m + n) w = refresh n (refresh m w)"
proof (induction m arbitrary: w)
  case 0
  show ?case by simp
next
  case (Suc m)
  obtain c k where "w = (c, k)" by (cases w)
  then show ?case by (simp add: Suc.IH)
qed

lemma refresh_le:
  assumes "refresh m w = (c, 0)" "m \<le> n"
  shows "refresh n w = (c, 0)"
proof -
  from assms(2) obtain d where "n = m + d" using le_Suc_ex by blast
  then show ?thesis by (simp add: refresh_add assms(1) refresh_zero_pending)
qed

text \<open>With one callback outstanding and the counter at 1: three calls count, the fourth decays.\<close>

lemma cycle:
  assumes "frame c = Num 1"
  shows "refresh 3 (c, Suc 0) = (c\<lparr>frame := Num 4\<rparr>, Suc 0)"
    and "refresh 4 (c, Suc 0) =
           (c\<lparr>scramble := map (\<lambda>e. max 0 (e - 15)) (scramble c), frame := Num 1\<rparr>,
            if sum_list (scramble c) \<noteq> 0 then Suc 0 else 0)"
  using assms
  by (simp_all add: numeral_eq_Suc unscramble_count unscramble_tick idle_then_def split: prod.split)

lemma counting:
  assumes "frame c = Num 1" "r < 4"
  shows "snd (refresh r (c, Suc 0)) = Suc 0"
proof -
  from assms(2) consider "r = 0" | "r = 1" | "r = 2" | "r = 3" by linarith
  then show ?thesis
    using assms(1)
    by cases (simp_all add: numeral_eq_Suc unscramble_count idle_then_def)
qed

subsection \<open>Sums and decay of non-negative buffers\<close>

lemma decay_small:
  assumes "\<forall>e\<in>set buffer. 0 \<le> e \<and> e \<le> (15::int)"
  shows "map (\<lambda>e. max 0 (e - 15)) buffer = replicate (length buffer) 0"
  using assms by (induction buffer) auto

lemma decay_all:
  assumes "\<forall>e\<in>set buffer. e \<le> 15 * int j"
  shows "map (\<lambda>e. max 0 (e - 15 * int j)) buffer = replicate (length buffer) 0"
  using assms by (induction buffer) auto

lemma decay_none:
  "\<forall>e\<in>set buffer. (0::int) \<le> e \<Longrightarrow> map (\<lambda>e. max 0 (e - 15 * int 0)) buffer = buffer"
  by (induction buffer) auto

lemma decay_iterate:
  "(\<lambda>e. max 0 (e - 15)) \<circ> (\<lambda>e. max 0 (e - 15 * int j)) =
   (\<lambda>e::int. max 0 (e - (15 + 15 * int j)))"
  by (auto simp: fun_eq_iff)

lemma sum_list_pos:
  assumes "\<forall>e\<in>set buffer. (0::int) \<le> e" "\<exists>e\<in>set buffer. 0 < e"
  shows "0 < sum_list buffer"
  using assms
proof (induction buffer)
  case Nil
  then show ?case by simp
next
  case (Cons a buffer)
  have "0 \<le> sum_list buffer" using Cons.prems(1) by (simp add: sum_list_nonneg)
  with Cons show ?case by (cases "0 < a") auto
qed

subsection \<open>A whole reveal cycle\<close>

text \<open>
  As long as some magnitude is still positive before each tick, \<open>j\<close> ticks take \<open>4 j\<close>
  refreshes, leave every entry \<open>e\<close> at \<open>max 0 (e - 15 j)\<close> and keep the loop going.
\<close>

lemma ticks:
  assumes f: "frame c = Num 1"
    and nonneg: "\<forall>e\<in>set (scramble c). 0 \<le> e"
    and live: "\<forall>i<j. \<exists>e\<in>set (scramble c). 15 * int i < e"
  shows "refresh (4 * j) (c, Suc 0) =
           (c\<lparr>scramble := map (\<lambda>e. max 0 (e - 15 * int j)) (scramble c), frame := Num 1\<rparr>, Suc 0)"
  using live
proof (induction j)
  case 0
  have "c\<lparr>scramble := map (\<lambda>e. max 0 (e - 15 * int 0)) (scramble c), frame := Num 1\<rparr> =
        c\<lparr>scramble := scramble c, frame := frame c\<rparr>"
    by (simp only: decay_none[OF nonneg] f)
  also have "\<dots> = c" by simp
  finally show ?case by simp
next
  case (Suc j)
  let ?b = "map (\<lambda>e. max 0 (e - 15 * int j)) (scramble c)"
  let ?cj = "c\<lparr>scramble := ?b, frame := Num 1\<rparr>"
  have IH: "refresh (4 * j) (c, Suc 0) = (?cj, Suc 0)" using Suc by simp
  from Suc.prems obtain e where e: "e \<in> set (scramble c)" "15 * int j < e" by blast
  have "0 < sum_list ?b"
  proof (rule sum_list_pos)
    show "\<forall>x\<in>set ?b. 0 \<le> x" by auto
    show "\<exists>x\<in>set ?b. 0 < x" using e by (auto intro!: bexI[of _ e])
  qed
  then have pos: "sum_list (scramble ?cj) \<noteq> 0" by simp
  have "refresh (4 * Suc j) (c, Suc 0) = refresh 4 (refresh (4 * j) (c, Suc 0))"
    by (metis refresh_add mult_Suc_right add.commute)
  also have "\<dots> = refresh 4 (?cj, Suc 0)" by (simp only: IH)
  also have "\<dots> =
      (?cj\<lparr>scramble := map (\<lambda>e. max 0 (e - 15)) (scramble ?cj), frame := Num 1\<rparr>, Suc 0)"
    using pos by (subst cycle(2)) simp_all
  finally show ?case by (simp add: decay_iterate)
qed

text \<open>
  A buffer that needs \<open>j\<close> ticks to reach zero keeps the loop alive for \<open>j + 1\<close> ticks:
  the tick that stops it is the first to add up a buffer that is zero already.
\<close>

lemma reveal_cycle:
  assumes bounds: "\<forall>e\<in>set buffer. 0 \<le> e \<and> e \<le> 15 * int j"
    and tight: "\<forall>i<j. \<exists>e\<in>set buffer. 15 * int i < e"
  shows "refresh (4 * Suc j) (idle_then (start buffer c)) =
           (c\<lparr>frame := Num 1, scramble := replicate (length buffer) 0\<rparr>, 0)"
    and "\<forall>n < 4 * Suc j. snd (refresh n (idle_then (start buffer c))) = 1"
    and "scramble (fst (refresh (4 * j) (idle_then (start buffer c)))) =
           replicate (length buffer) 0"
    and "\<forall>i<j. 0 < sum_list (scramble (fst (refresh (4 * i) (idle_then (start buffer c)))))"
proof -
  define c1 where "c1 = c\<lparr>frame := Num 1, scramble := buffer\<rparr>"
  have w: "idle_then (start buffer c) = (c1, Suc 0)"
    by (simp add: c1_def start_eq idle_then_def)
  have f1: "frame c1 = Num 1" and b1: "scramble c1 = buffer" by (simp_all add: c1_def)
  have nonneg: "\<forall>e\<in>set (scramble c1). 0 \<le> e" using bounds by (simp add: b1)
  have at: "refresh (4 * i) (c1, Suc 0) =
              (c1\<lparr>scramble := map (\<lambda>e. max 0 (e - 15 * int i)) buffer, frame := Num 1\<rparr>, Suc 0)"
    if "i \<le> j" for i
    using ticks[OF f1 nonneg, of i] tight that by (simp add: b1)
  have zero: "map (\<lambda>e. max 0 (e - 15 * int j)) buffer = replicate (length buffer) 0"
    using bounds by (intro decay_all) simp
  have "refresh (4 * Suc j) (c1, Suc 0) = refresh 4 (refresh (4 * j) (c1, Suc 0))"
    by (metis refresh_add mult_Suc_right add.commute)
  also have "\<dots> =
      refresh 4 (c1\<lparr>scramble := replicate (length buffer) 0, frame := Num 1\<rparr>, Suc 0)"
    by (simp only: at[OF order_refl] zero)
  also have "\<dots> = (c\<lparr>frame := Num 1, scramble := replicate (length buffer) 0\<rparr>, 0)"
    by (subst cycle(2)) (simp_all add: c1_def sum_list_replicate)
  finally show "refresh (4 * Suc j) (idle_then (start buffer c)) =
           (c\<lparr>frame := Num 1, scramble := replicate (length buffer) 0\<rparr>, 0)"
    by (simp only: w)
  show "\<forall>n < 4 * Suc j. snd (refresh n (idle_then (start buffer c))) = 1"
  proof (intro allI impI)
    fix n assume n: "n < 4 * Suc j"
    define i r where "i = n div 4" and "r = n mod 4"
    have split: "n = 4 * i + r" and r: "r < 4" and i: "i \<le> j"
      using n by (simp_all add: i_def r_def)
    have "refresh n (c1, Suc 0) = refresh r (refresh (4 * i) (c1, Suc 0))"
      by (simp only: split refresh_add)
    also have "\<dots> = refresh r
        (c1\<lparr>scramble := map (\<lambda>e. max 0 (e - 15 * int i)) buffer, frame := Num 1\<rparr>, Suc 0)"
      by (simp only: at[OF i])
    finally show "snd (refresh n (idle_then (start buffer c))) = 1"
      by (simp only: w) (simp add: counting r)
  qed
  show "scramble (fst (refresh (4 * j) (idle_then (start buffer c)))) =
           replicate (length buffer) 0"
    by (simp only: w at[OF order_refl] zero) simp
  show "\<forall>i<j. 0 < sum_list (scramble (fst (refresh (4 * i) (idle_then (start buffer c)))))"
  proof (intro allI impI)
    fix i assume i: "i < j"
    let ?b = "map (\<lambda>e. max 0 (e - 15 * int i)) buffer"
    from tight i obtain e where e: "e \<in> set buffer" "15 * int i < e" by blast
    have "0 < sum_list ?b"
    proof (rule sum_list_pos)
      show "\<forall>x\<in>set ?b. 0 \<le> x" by auto
      show "\<exists>x\<in>set ?b. 0 < x" using e by (auto intro!: bexI[of _ e])
    qed
    moreover have "scramble (fst (refresh (4 * i) (idle_then (start buffer c)))) = ?b"
      using i by (simp only: w at[OF less_imp_le]) simp
    ultimately show "0 < sum_list (scramble (fst (refresh (4 * i) (idle_then (start buffer c)))))"
      by (simp only:)
  qed
qed

text \<open>
  On the buffer \<open>[5]\<close>, the tick of the fourth refresh brings the magnitude to 0 and still
  registers a callback: it added up the 5 that was there before.
\<close>

theorem first_tick_reschedules:
  "scramble (fst (refresh 4 (idle_then (start [5] (initial 1))))) = [0]
   \<and> snd (refresh 4 (idle_then (start [5] (initial 1)))) \<noteq> 0"
  by (simp add: start_def idle_then_def initial_def unscramble_def numeral_eq_Suc)

text \<open>
  Claim C1, as the code has it. A reveal is started, with no callback outstanding, on a
  buffer whose magnitudes all lie between 0 and 15, one of them positive. The direct call
  and three refreshes only count and leave the buffer as it is; the tick of the fourth
  refresh brings every magnitude to 0 and registers another callback, since the sum it
  accumulated is that of the magnitudes before the decay. Three more refreshes count; the
  tick of the eighth refresh adds up 0 and registers nothing. A callback is outstanding
  after each of the first seven refreshes and never again from the eighth on.
\<close>

theorem reveal_small_buffer:
  assumes small: "\<forall>e\<in>set buffer. 0 \<le> e \<and> e \<le> 15"
    and some: "\<exists>e\<in>set buffer. 0 < e"
  shows "refresh 3 (idle_then (start buffer c)) = (c\<lparr>frame := Num 4, scramble := buffer\<rparr>, 1)
       \<and> refresh 4 (idle_then (start buffer c)) =
           (c\<lparr>frame := Num 1, scramble := replicate (length buffer) 0\<rparr>, 1)
       \<and> refresh 7 (idle_then (start buffer c)) =
           (c\<lparr>frame := Num 4, scramble := replicate (length buffer) 0\<rparr>, 1)
       \<and> refresh 8 (idle_then (start buffer c)) =
           (c\<lparr>frame := Num 1, scramble := replicate (length buffer) 0\<rparr>, 0)
       \<and> (\<forall>n<8. snd (refresh n (idle_then (start buffer c))) = 1)
       \<and> (\<forall>n\<ge>8. refresh n (idle_then (start buffer c)) =
             (c\<lparr>frame := Num 1, scramble := replicate (length buffer) 0\<rparr>, 0))"
proof -
  define w where "w = idle_then (start buffer c)"
  define c1 where "c1 = c\<lparr>frame := Num 1, scramble := buffer\<rparr>"
  define c2 where "c2 = c\<lparr>frame := Num 1, scramble := replicate (length buffer) 0\<rparr>"
  have w: "w = (c1, 1)" by (simp add: w_def c1_def start_eq idle_then_def)
  have pos: "sum_list buffer \<noteq> 0" using sum_list_pos[of buffer] small some by auto
  have f1: "frame c1 = Num 1" and f2: "frame c2 = Num 1" by (simp_all add: c1_def c2_def)
  have r0: "refresh 0 w = (c1, 1)" by (simp add: w)
  have r1: "refresh 1 w = (c1\<lparr>frame := Num 2\<rparr>, 1)"
    by (simp add: w f1 unscramble_count)
  have r2: "refresh 2 w = (c1\<lparr>frame := Num 3\<rparr>, 1)"
    by (simp add: w f1 numeral_eq_Suc unscramble_count)
  have r3: "refresh 3 w = (c1\<lparr>frame := Num 4\<rparr>, 1)"
    by (simp add: w cycle(1)[OF f1])
  have r4: "refresh 4 w = (c2, 1)"
    using pos by (simp add: w cycle(2)[OF f1]) (simp add: c1_def c2_def decay_small[OF small])
  have step: "refresh (4 + n) w = refresh n (c2, 1)" for n
    by (simp only: refresh_add r4)
  have r5: "refresh 5 w = (c2\<lparr>frame := Num 2\<rparr>, 1)"
    using step[of 1] by (simp add: f2 unscramble_count)
  have r6: "refresh 6 w = (c2\<lparr>frame := Num 3\<rparr>, 1)"
    using step[of 2] by (simp add: f2 numeral_eq_Suc unscramble_count)
  have r7: "refresh 7 w = (c2\<lparr>frame := Num 4\<rparr>, 1)"
    using step[of 3] by (simp add: cycle(1)[OF f2])
  have r8: "refresh 8 w = (c2, 0)"
    using step[of 4] by (simp add: cycle(2)[OF f2]) (simp add: c2_def sum_list_replicate)
  have before: "snd (refresh n w) = 1" if "n < 8" for n
  proof -
    from that consider "n = 0" | "n = 1" | "n = 2" | "n = 3" | "n = 4" | "n = 5" | "n = 6" | "n = 7"
      by linarith
    then show ?thesis
      by cases (simp_all only: r0 r1 r2 r3 r4 r5 r6 r7 snd_conv)
  qed
  have after: "refresh n w = (c2, 0)" if "8 \<le> n" for n
    using refresh_le[OF r8 that] .
  show ?thesis
    unfolding w_def[symmetric]
    using r3 r4 r7 r8 before after by (simp add: c1_def c2_def)
qed

theorem reveal_small_buffer_witness:
  "set [5, 0, 15 :: int] \<subseteq> {0..15} \<and> (\<exists>e\<in>set [5, 0, 15 :: int]. 0 < e)
   \<and> refresh 4 (idle_then (start [5, 0, 15] (initial 3))) =
        (\<lparr>frame = Num 1, message = [], scramble = [0, 0, 0]\<rparr>, 1)
   \<and> refresh 8 (idle_then (start [5, 0, 15] (initial 3))) =
        (\<lparr>frame = Num 1, message = [], scramble = [0, 0, 0]\<rparr>, 0)"
proof -
  have h1: "\<forall>e\<in>set [5, 0, 15 :: int]. 0 \<le> e \<and> e \<le> 15" by simp
  have h2: "\<exists>e\<in>set [5, 0, 15 :: int]. 0 < e" by simp
  show ?thesis
    using reveal_small_buffer[OF h1 h2, of "initial 3"] h1 h2
    by (simp add: initial_def numeral_eq_Suc)
qed

text \<open>Every buffer has its number of ticks to zero: the least \<open>j\<close> with every entry at most \<open>15 j\<close>.\<close>

lemma bound_exists: "\<exists>j. \<forall>e\<in>set buffer. e \<le> 15 * int j"
proof (induction buffer)
  case Nil
  show ?case by simp
next
  case (Cons a buffer)
  then obtain j where j: "\<forall>e\<in>set buffer. e \<le> 15 * int j" by blast
  have "\<forall>e\<in>set (a # buffer). e \<le> 15 * int (max j (nat a))"
  proof
    fix e assume "e \<in> set (a # buffer)"
    then consider "e = a" | "e \<in> set buffer" by auto
    then show "e \<le> 15 * int (max j (nat a))"
    proof cases
      case 1
      then show ?thesis by simp
    next
      case 2
      then have "e \<le> 15 * int j" using j by blast
      then show ?thesis by simp
    qed
  qed
  then show ?case by blast
qed

lemma ticks_exist:
  "\<exists>j. (\<forall>e\<in>set buffer. e \<le> 15 * int j) \<and> (\<forall>i<j. \<exists>e\<in>set buffer. 15 * int i < e)"
proof -
  define j where "j = (LEAST j. \<forall>e\<in>set buffer. e \<le> 15 * int j)"
  have b: "\<forall>e\<in>set buffer. e \<le> 15 * int j"
    unfolding j_def using bound_exists[of buffer] by (rule LeastI_ex)
  have "\<exists>e\<in>set buffer. 15 * int i < e" if "i < j" for i
  proof -
    have "\<not> (\<forall>e\<in>set buffer. e \<le> 15 * int i)"
      using that unfolding j_def by (rule not_less_Least)
    then show ?thesis by (simp add: not_le)
  qed
  with b show ?thesis by blast
qed

text \<open>
  The start has to find no callback outstanding. A reveal on \<open>[30]\<close> started while the
  callback of a reveal on \<open>[7]\<close> is still outstanding runs with two callbacks: the
  buffer is zero after 4 refreshes, one callback stops at refresh 6 and the other only at
  refresh 10, two ticks after the sum has reached zero.
\<close>

lemma overlapping_reveals:
  "refresh 4 (start_while [30] (idle_then (start [7] (initial 1)))) =
     (\<lparr>frame = Num 1, message = [], scramble = [0]\<rparr>, 2)
   \<and> refresh 6 (start_while [30] (idle_then (start [7] (initial 1)))) =
     (\<lparr>frame = Num 1, message = [], scramble = [0]\<rparr>, 1)
   \<and> refresh 9 (start_while [30] (idle_then (start [7] (initial 1)))) =
     (\<lparr>frame = Num 4, message = [], scramble = [0]\<rparr>, 1)
   \<and> refresh 10 (start_while [30] (idle_then (start [7] (initial 1)))) =
     (\<lparr>frame = Num 1, message = [], scramble = [0]\<rparr>, 0)"
  by (simp add: start_while_def start_def idle_then_def initial_def unscramble_def
      numeral_eq_Suc)

lemma start_while_idle: "start_while buffer (c, 0) = idle_then (start buffer c)"
  by (simp add: start_while_def idle_then_def split: prod.split)

text \<open>
  A tick on the buffer \<open>[5]\<close> accumulates 5, the sum of the old magnitudes, while the new
  magnitudes add up to 0; and it registers a callback although the buffer it leaves has
  sum zero.
\<close>

theorem tick_adds_old_magnitudes:
  "fst (decay_loop [5] 0 []) = 5 \<and> sum_list (snd (decay_loop [5] 0 [])) = 0
   \<and> unscramble \<lparr>frame = Num 4, message = [], scramble = [5]\<rparr> =
       (\<lparr>frame = Num 1, message = [], scramble = [0]\<rparr>, True)"
  by (simp add: unscramble_def)

text \<open>
  Claim C2, as the code has it. On a decay tick the loop accumulates the sum of the
  magnitudes as they were before the decay, and \<^verbatim>\<open>unscramble\<close> registers another callback
  if and only if that sum is not zero. A reveal cycle on non-negative magnitudes that is
  started with no callback outstanding therefore stops one tick after the sum of the
  buffer has reached zero: when \<open>j\<close> ticks are what it takes to bring every magnitude to
  0, the buffer is zero after \<open>4 j\<close> refreshes and has a positive sum after \<open>4 i\<close>
  refreshes for every \<open>i < j\<close>, a callback is outstanding throughout the
  first \<open>4 (j + 1)\<close> refreshes, and none is registered by the tick of refresh
  \<open>4 (j + 1)\<close>. Every buffer has such a \<open>j\<close>.
\<close>

theorem tick_sum_and_termination:
  "(gt3 (frame c) \<longrightarrow>
      decay_loop (scramble c) 0 [] =
        (sum_list (scramble c), map (\<lambda>e. max 0 (e - 15)) (scramble c))
      \<and> unscramble c =
        (c\<lparr>scramble := map (\<lambda>e. max 0 (e - 15)) (scramble c), frame := Num 1\<rparr>,
         sum_list (scramble c) \<noteq> 0))
   \<and> ((\<forall>e\<in>set buffer. 0 \<le> e \<and> e \<le> 15 * int j) \<and> (\<forall>i<j. \<exists>e\<in>set buffer. 15 * int i < e) \<longrightarrow>
        scramble (fst (refresh (4 * j) (idle_then (start buffer c)))) = replicate (length buffer) 0
      \<and> (\<forall>i<j. 0 < sum_list (scramble (fst (refresh (4 * i) (idle_then (start buffer c))))))
      \<and> (\<forall>n < 4 * Suc j. snd (refresh n (idle_then (start buffer c))) = 1)
      \<and> refresh (4 * Suc j) (idle_then (start buffer c)) =
           (c\<lparr>frame := Num 1, scramble := replicate (length buffer) 0\<rparr>, 0))
   \<and> (\<exists>j. (\<forall>e\<in>set buffer. e \<le> 15 * int j) \<and> (\<forall>i<j. \<exists>e\<in>set buffer. 15 * int i < e))"
proof (intro conjI impI)
  show "\<exists>j. (\<forall>e\<in>set buffer. e \<le> 15 * int j) \<and> (\<forall>i<j. \<exists>e\<in>set buffer. 15 * int i < e)"
    by (rule ticks_exist)
next
  assume "gt3 (frame c)"
  then show "unscramble c =
        (c\<lparr>scramble := map (\<lambda>e. max 0 (e - 15)) (scramble c), frame := Num 1\<rparr>,
         sum_list (scramble c) \<noteq> 0)"
    by (rule unscramble_tick)
next
  show "decay_loop (scramble c) 0 [] =
        (sum_list (scramble c), map (\<lambda>e. max 0 (e - 15)) (scramble c))"
    by (simp add: decay_loop_eq)
next
  assume h: "(\<forall>e\<in>set buffer. 0 \<le> e \<and> e \<le> 15 * int j)
      \<and> (\<forall>i<j. \<exists>e\<in>set buffer. 15 * int i < e)"
  then have b: "\<forall>e\<in>set buffer. 0 \<le> e \<and> e \<le> 15 * int j"
    and t: "\<forall>i<j. \<exists>e\<in>set buffer. 15 * int i < e" by blast+
  show "scramble (fst (refresh (4 * j) (idle_then (start buffer c)))) = replicate (length buffer) 0"
    by (rule reveal_cycle(3)[OF b t])
  show "\<forall>n < 4 * Suc j. snd (refresh n (idle_then (start buffer c))) = 1"
    by (rule reveal_cycle(2)[OF b t])
  show "\<forall>i<j. 0 < sum_list (scramble (fst (refresh (4 * i) (idle_then (start buffer c)))))"
    by (rule reveal_cycle(4)[OF b t])
  show "refresh (4 * Suc j) (idle_then (start buffer c)) =
           (c\<lparr>frame := Num 1, scramble := replicate (length buffer) 0\<rparr>, 0)"
    by (rule reveal_cycle(1)[OF b t])
qed

theorem tick_sum_and_termination_witness:
  "gt3 (frame \<lparr>frame = Num 4, message = [], scramble = [20, 0, 7]\<rparr>)
   \<and> set [20, 0, 7 :: int] \<subseteq> {0..15 * int 2}
   \<and> (\<exists>e\<in>set [20, 0, 7 :: int]. 15 * int 0 < e)
   \<and> (\<exists>e\<in>set [20, 0, 7 :: int]. 15 * int 1 < e)
   \<and> unscramble \<lparr>frame = Num 4, message = [], scramble = [20, 0, 7]\<rparr> =
       (\<lparr>frame = Num 1, message = [], scramble = [5, 0, 0]\<rparr>, True)
   \<and> scramble (fst (refresh 8
        (idle_then (start [20, 0, 7] \<lparr>frame = Num 4, message = [], scramble = [20, 0, 7]\<rparr>)))) =
       [0, 0, 0]
   \<and> refresh 12
        (idle_then (start [20, 0, 7] \<lparr>frame = Num 4, message = [], scramble = [20, 0, 7]\<rparr>)) =
       (\<lparr>frame = Num 1, message = [], scramble = [0, 0, 0]\<rparr>, 0)"
proof -
  have h1: "gt3 (frame \<lparr>frame = Num 4, message = [], scramble = [20, 0, 7]\<rparr>)" by simp
  have h2: "\<forall>e\<in>set [20, 0, 7 :: int]. 0 \<le> e \<and> e \<le> 15 * int 2" by simp
  have h3: "\<forall>i<2. \<exists>e\<in>set [20, 0, 7 :: int]. 15 * int i < e"
    by (simp add: numeral_2_eq_2 less_Suc_eq)
  show ?thesis
    using tick_sum_and_termination
            [of "\<lparr>frame = Num 4, message = [], scramble = [20, 0, 7]\<rparr>" "[20, 0, 7]" 2]
          h1 h2 h3
    by (simp add: numeral_eq_Suc)
qed

subsection \<open>Teardown\<close>

lemma run_pending_stopped: "lt0 (frame c) \<Longrightarrow> run_pending k c = (c, 0)"
  by (induction k) (simp_all add: unscramble_stopped)

text \<open>
  Claim C3. Once \<^verbatim>\<open>componentWillUnmount\<close> has set the counter to -1, whatever the instance
  was before, a call of \<^verbatim>\<open>unscramble\<close> returns the instance as it is and registers no
  callback; so do any number of outstanding callbacks run one after the other, and after
  one refresh no callback is outstanding, nor after any later one.
\<close>

theorem unmount_halts:
  "unscramble (componentWillUnmount c) = (componentWillUnmount c, False)
   \<and> run_pending k (componentWillUnmount c) = (componentWillUnmount c, 0)
   \<and> refresh (Suc n) (componentWillUnmount c, k) = (componentWillUnmount c, 0)"
  by (simp add: unscramble_stopped run_pending_stopped refresh_zero_pending
      componentWillUnmount_def)

subsection \<open>The handlers\<close>

text \<open>
  Claim C4. While \<^verbatim>\<open>isSyncing\<close> or \<^verbatim>\<open>isTransitioning\<close> is true, \<^verbatim>\<open>onGeneratePress\<close>
  has exactly one effect, the error alert with the translated "please wait" title and
  explanation: no seed store is constructed, \<^verbatim>\<open>generateNewAddress\<close> is not called, and
  the instance is returned as it was.
\<close>

theorem busy_guard:
  assumes "isSyncing p \<or> isTransitioning p"
  shows "onGeneratePress col p c =
           (c, [GenerateAlert ''error'' (t p ''global:pleaseWait'')
                  (t p ''global:pleaseWaitExplanation'')], Inr ())"
  using assms by (simp add: onGeneratePress_def)

theorem busy_guard_witness:
  "(isSyncing \<lparr>account = \<lparr>addresses = Some [''A9'']\<rparr>, accountName = ''main'',
        accountMeta = \<lparr>meta_type = ''keychain''\<rparr>, receiveAddress = ''A9'', password = None,
        isSyncing = True, isTransitioning = False, isGeneratingReceiveAddress = False, t = id\<rparr>
    \<or> isTransitioning \<lparr>account = \<lparr>addresses = Some [''A9'']\<rparr>, accountName = ''main'',
        accountMeta = \<lparr>meta_type = ''keychain''\<rparr>, receiveAddress = ''A9'', password = None,
        isSyncing = True, isTransitioning = False, isGeneratingReceiveAddress = False, t = id\<rparr>)
   \<and> onGeneratePress (keychain (Inr (VBool True)))
        \<lparr>account = \<lparr>addresses = Some [''A9'']\<rparr>, accountName = ''main'',
         accountMeta = \<lparr>meta_type = ''keychain''\<rparr>, receiveAddress = ''A9'', password = None,
         isSyncing = True, isTransitioning = False, isGeneratingReceiveAddress = False, t = id\<rparr>
        (initial 2) =
       (initial 2,
        [GenerateAlert ''error'' ''global:pleaseWait'' ''global:pleaseWaitExplanation''],
        Inr ())"
  using busy_guard [of "\<lparr>account = \<lparr>addresses = Some [''A9'']\<rparr>, accountName = ''main'',
         accountMeta = \<lparr>meta_type = ''keychain''\<rparr>, receiveAddress = ''A9'', password = None,
         isSyncing = True, isTransitioning = False, isGeneratingReceiveAddress = False, t = id\<rparr>"
        "keychain (Inr (VBool True))" "initial 2"]
  by simp

text \<open>With the guard open the same press constructs the seed store and asks for an address.\<close>

lemma idle_press:
  "onGeneratePress (keychain r)
     \<lparr>account = a, accountName = ''main'', accountMeta = \<lparr>meta_type = ''keychain''\<rparr>,
      receiveAddress = ''A9'', password = None, isSyncing = False, isTransitioning = False,
      isGeneratingReceiveAddress = False, t = id\<rparr> c =
   (c, [NewSeedStore ''keychain'' None ''main'' \<lparr>meta_type = ''keychain''\<rparr>,
        GenerateNewAddress () ''main'' a], Inr ())"
  by (simp add: onGeneratePress_def new_SeedStore_def keychain_def)

lemma validateAdress_settled:
  assumes "new_SeedStore col p = (es, Inr seedStore)"
    and "validate_call col p seedStore = (vs, r)"
  shows "validateAdress col p c =
     (c, es @ vs @
         (case r of
            Inr valid \<Rightarrow>
              ConsoleLog (LogValid valid) #
                (if \<not> truthy valid then [HistoryPush ''/wallet/'']
                 else (case notification_of valid of
                         Some n \<Rightarrow> [GenerateAlert ''success'' (t p (title n)) (t p (content n))]
                       | None \<Rightarrow> []))
          | Inl err \<Rightarrow> [ConsoleLog (LogError err), HistoryPush ''/wallet/'']),
      Inr ())"
  using assms by (simp add: validateAdress_def split: sum.split)

lemma alerts_append: "alerts (xs @ ys) = alerts xs @ alerts ys"
  by (induction xs rule: alerts.induct) simp_all

lemma navigations_append: "navigations (xs @ ys) = navigations xs @ navigations ys"
  by (induction xs rule: navigations.induct) simp_all

lemma new_SeedStore_quiet:
  "alerts (fst (new_SeedStore col p)) = [] \<and> navigations (fst (new_SeedStore col p)) = []"
  by (simp add: new_SeedStore_def split: option.split)

lemma validate_call_quiet:
  "alerts (fst (validate_call col p s)) = [] \<and> navigations (fst (validate_call col p s)) = []"
  by (simp add: validate_call_def split: option.split)

text \<open>
  When \<^verbatim>\<open>validateAddress\<close> resolves to \<^verbatim>\<open>true\<close>, the handler logs the value and does
  nothing else: it neither navigates nor raises an alert.
\<close>

theorem valid_without_notification:
  "fst (snd (validateAdress (keychain (Inr (VBool True)))
        \<lparr>account = \<lparr>addresses = Some [''A9'']\<rparr>, accountName = ''main'',
         accountMeta = \<lparr>meta_type = ''keychain''\<rparr>, receiveAddress = ''A9'', password = None,
         isSyncing = False, isTransitioning = False, isGeneratingReceiveAddress = False, t = id\<rparr>
        (initial 2))) =
     [NewSeedStore ''keychain'' None ''main'' \<lparr>meta_type = ''keychain''\<rparr>,
      ValidateAddress () 0, ConsoleLog (LogValid (VBool True))]
   \<and> navigations (fst (snd (validateAdress (keychain (Inr (VBool True)))
        \<lparr>account = \<lparr>addresses = Some [''A9'']\<rparr>, accountName = ''main'',
         accountMeta = \<lparr>meta_type = ''keychain''\<rparr>, receiveAddress = ''A9'', password = None,
         isSyncing = False, isTransitioning = False, isGeneratingReceiveAddress = False, t = id\<rparr>
        (initial 2)))) = []
   \<and> alerts (fst (snd (validateAdress (keychain (Inr (VBool True)))
        \<lparr>account = \<lparr>addresses = Some [''A9'']\<rparr>, accountName = ''main'',
         accountMeta = \<lparr>meta_type = ''keychain''\<rparr>, receiveAddress = ''A9'', password = None,
         isSyncing = False, isTransitioning = False, isGeneratingReceiveAddress = False, t = id\<rparr>
        (initial 2)))) = []"
  by (simp add: validateAdress_def validate_call_def new_SeedStore_def keychain_def)

text \<open>
  Claim C5, as the code has it. \<^verbatim>\<open>validateAdress\<close> never assigns to the instance and has
  five cases. When the construction of the seed store, which is outside the \<^verbatim>\<open>try\<close>
  block, throws, the promise is rejected and nothing is navigated to and no alert is
  raised. Otherwise the promise resolves, and it depends on how the call in the \<^verbatim>\<open>try\<close>
  block settles: on \<^verbatim>\<open>false\<close> the handler navigates to \<^verbatim>\<open>/wallet/\<close> and raises no
  alert; on an object that carries a notification it raises exactly one success alert with
  the translated title and content and does not navigate; on \<^verbatim>\<open>true\<close> or an object
  without a notification it neither navigates nor raises an alert; on an exception it
  navigates to \<^verbatim>\<open>/wallet/\<close> and raises no alert.
\<close>

theorem validate_outcomes:
  "fst (validateAdress col p c) = c
   \<and> (snd (new_SeedStore col p) = Inl e \<longrightarrow>
        snd (snd (validateAdress col p c)) = Inl e
        \<and> navigations (fst (snd (validateAdress col p c))) = []
        \<and> alerts (fst (snd (validateAdress col p c))) = [])
   \<and> (snd (new_SeedStore col p) = Inr seedStore \<longrightarrow>
        snd (snd (validateAdress col p c)) = Inr ()
        \<and> (snd (validate_call col p seedStore) = Inr (VBool False) \<longrightarrow>
             navigations (fst (snd (validateAdress col p c))) = [''/wallet/'']
             \<and> alerts (fst (snd (validateAdress col p c))) = [])
        \<and> (snd (validate_call col p seedStore) = Inr (VObject (Some n)) \<longrightarrow>
             alerts (fst (snd (validateAdress col p c))) =
               [(''success'', t p (title n), t p (content n))]
             \<and> navigations (fst (snd (validateAdress col p c))) = [])
        \<and> (snd (validate_call col p seedStore) = Inr (VBool True)
             \<or> snd (validate_call col p seedStore) = Inr (VObject None) \<longrightarrow>
             alerts (fst (snd (validateAdress col p c))) = []
             \<and> navigations (fst (snd (validateAdress col p c))) = [])
        \<and> (snd (validate_call col p seedStore) = Inl err \<longrightarrow>
             navigations (fst (snd (validateAdress col p c))) = [''/wallet/'']
             \<and> alerts (fst (snd (validateAdress col p c))) = []))"
proof (intro conjI impI)
  show "fst (validateAdress col p c) = c"
    by (simp add: validateAdress_def split: prod.split sum.split)
next
  assume f: "snd (new_SeedStore col p) = Inl e"
  then obtain es0 where n: "new_SeedStore col p = (es0, Inl e)"
    by (cases "new_SeedStore col p") simp
  have q0: "alerts es0 = []" "navigations es0 = []"
    using new_SeedStore_quiet[of col p] n by simp_all
  have v: "validateAdress col p c = (c, es0, Inl e)"
    by (simp add: validateAdress_def n)
  show "snd (snd (validateAdress col p c)) = Inl e"
    and "navigations (fst (snd (validateAdress col p c))) = []"
    and "alerts (fst (snd (validateAdress col p c))) = []"
    by (simp_all add: v q0)
next
  assume s: "snd (new_SeedStore col p) = Inr seedStore"
  then obtain es0 where n: "new_SeedStore col p = (es0, Inr seedStore)"
    by (cases "new_SeedStore col p") simp
  obtain vs r where vc: "validate_call col p seedStore = (vs, r)"
    by (cases "validate_call col p seedStore")
  have q0: "alerts es0 = []" "navigations es0 = []"
    using new_SeedStore_quiet[of col p] n by simp_all
  have q1: "alerts vs = []" "navigations vs = []"
    using validate_call_quiet[of col p seedStore] vc by simp_all
  note v = validateAdress_settled[OF n vc, of c]
  show "snd (snd (validateAdress col p c)) = Inr ()"
    by (simp add: v)
  {
    assume "snd (validate_call col p seedStore) = Inr (VBool False)"
    then have r: "r = Inr (VBool False)" by (simp add: vc)
    show "navigations (fst (snd (validateAdress col p c))) = [''/wallet/'']"
      and "alerts (fst (snd (validateAdress col p c))) = []"
      by (simp_all add: v r alerts_append navigations_append q0 q1)
  }
  {
    assume "snd (validate_call col p seedStore) = Inr (VObject (Some n))"
    then have r: "r = Inr (VObject (Some n))" by (simp add: vc)
    show "alerts (fst (snd (validateAdress col p c))) =
        [(''success'', t p (title n), t p (content n))]"
      and "navigations (fst (snd (validateAdress col p c))) = []"
      by (simp_all add: v r alerts_append navigations_append q0 q1)
  }
  {
    assume "snd (validate_call col p seedStore) = Inr (VBool True)
        \<or> snd (validate_call col p seedStore) = Inr (VObject None)"
    then have r: "r = Inr (VBool True) \<or> r = Inr (VObject None)" by (simp add: vc)
    show "alerts (fst (snd (validateAdress col p c))) = []"
      and "navigations (fst (snd (validateAdress col p c))) = []"
      using r by (auto simp: v alerts_append navigations_append q0 q1)
  }
  {
    assume "snd (validate_call col p seedStore) = Inl err"
    then have r: "r = Inl err" by (simp add: vc)
    show "navigations (fst (snd (validateAdress col p c))) = [''/wallet/'']"
      and "alerts (fst (snd (validateAdress col p c))) = []"
      by (simp_all add: v r alerts_append navigations_append q0 q1)
  }
qed

theorem validate_outcomes_witness:
  "snd (new_SeedStore (keychain (Inr (VObject (Some \<lparr>title = ''t'', content = ''c''\<rparr>))))
      \<lparr>account = \<lparr>addresses = Some [''A9'']\<rparr>, accountName = ''main'',
       accountMeta = \<lparr>meta_type = ''keychain''\<rparr>, receiveAddress = ''A9'', password = None,
       isSyncing = False, isTransitioning = False, isGeneratingReceiveAddress = False, t = id\<rparr>) =
     Inr ()
   \<and> snd (validate_call (keychain (Inr (VObject (Some \<lparr>title = ''t'', content = ''c''\<rparr>))))
      \<lparr>account = \<lparr>addresses = Some [''A9'']\<rparr>, accountName = ''main'',
       accountMeta = \<lparr>meta_type = ''keychain''\<rparr>, receiveAddress = ''A9'', password = None,
       isSyncing = False, isTransitioning = False, isGeneratingReceiveAddress = False, t = id\<rparr> ()) =
     Inr (VObject (Some \<lparr>title = ''t'', content = ''c''\<rparr>))
   \<and> snd (snd (validateAdress
        (keychain (Inr (VObject (Some \<lparr>title = ''t'', content = ''c''\<rparr>))))
        \<lparr>account = \<lparr>addresses = Some [''A9'']\<rparr>, accountName = ''main'',
         accountMeta = \<lparr>meta_type = ''keychain''\<rparr>, receiveAddress = ''A9'', password = None,
         isSyncing = False, isTransitioning = False, isGeneratingReceiveAddress = False, t = id\<rparr>
        (initial 2))) = Inr ()
   \<and> alerts (fst (snd (validateAdress
        (keychain (Inr (VObject (Some \<lparr>title = ''t'', content = ''c''\<rparr>))))
        \<lparr>account = \<lparr>addresses = Some [''A9'']\<rparr>, accountName = ''main'',
         accountMeta = \<lparr>meta_type = ''keychain''\<rparr>, receiveAddress = ''A9'', password = None,
         isSyncing = False, isTransitioning = False, isGeneratingReceiveAddress = False, t = id\<rparr>
        (initial 2)))) = [(''success'', ''t'', ''c'')]
   \<and> navigations (fst (snd (validateAdress
        (keychain (Inr (VObject (Some \<lparr>title = ''t'', content = ''c''\<rparr>))))
        \<lparr>account = \<lparr>addresses = Some [''A9'']\<rparr>, accountName = ''main'',
         accountMeta = \<lparr>meta_type = ''keychain''\<rparr>, receiveAddress = ''A9'', password = None,
         isSyncing = False, isTransitioning = False, isGeneratingReceiveAddress = False, t = id\<rparr>
        (initial 2)))) = []
   \<and> snd (new_SeedStore (keychain (Inr (VBool True)))
      \<lparr>account = \<lparr>addresses = Some [''A9'']\<rparr>, accountName = ''main'',
       accountMeta = \<lparr>meta_type = ''ledger''\<rparr>, receiveAddress = ''A9'', password = None,
       isSyncing = False, isTransitioning = False, isGeneratingReceiveAddress = False, t = id\<rparr>) =
     Inl TypeError
   \<and> validateAdress (keychain (Inr (VBool True)))
        \<lparr>account = \<lparr>addresses = Some [''A9'']\<rparr>, accountName = ''main'',
         accountMeta = \<lparr>meta_type = ''ledger''\<rparr>, receiveAddress = ''A9'', password = None,
         isSyncing = False, isTransitioning = False, isGeneratingReceiveAddress = False, t = id\<rparr>
        (initial 2) = (initial 2, [], Inl TypeError)
   \<and> navigations (fst (snd (validateAdress (keychain (Inr (VBool True)))
        \<lparr>account = \<lparr>addresses = Some [''A9'']\<rparr>, accountName = ''main'',
         accountMeta = \<lparr>meta_type = ''ledger''\<rparr>, receiveAddress = ''A9'', password = None,
         isSyncing = False, isTransitioning = False, isGeneratingReceiveAddress = False, t = id\<rparr>
        (initial 2)))) = []
   \<and> alerts (fst (snd (validateAdress (keychain (Inr (VBool True)))
        \<lparr>account = \<lparr>addresses = Some [''A9'']\<rparr>, accountName = ''main'',
         accountMeta = \<lparr>meta_type = ''ledger''\<rparr>, receiveAddress = ''A9'', password = None,
         isSyncing = False, isTransitioning = False, isGeneratingReceiveAddress = False, t = id\<rparr>
        (initial 2)))) = []"
proof -
  let ?col = "keychain (Inr (VObject (Some \<lparr>title = ''t'', content = ''c''\<rparr>)))"
  let ?p = "\<lparr>account = \<lparr>addresses = Some [''A9'']\<rparr>, accountName = ''main'',
       accountMeta = \<lparr>meta_type = ''keychain''\<rparr>, receiveAddress = ''A9'', password = None,
       isSyncing = False, isTransitioning = False, isGeneratingReceiveAddress = False, t = id\<rparr>"
  let ?col' = "keychain (Inr (VBool True))"
  let ?p' = "\<lparr>account = \<lparr>addresses = Some [''A9'']\<rparr>, accountName = ''main'',
       accountMeta = \<lparr>meta_type = ''ledger''\<rparr>, receiveAddress = ''A9'', password = None,
       isSyncing = False, isTransitioning = False, isGeneratingReceiveAddress = False, t = id\<rparr>"
  have h1: "snd (new_SeedStore ?col ?p) = Inr ()"
    by (simp add: new_SeedStore_def keychain_def)
  have h2: "snd (validate_call ?col ?p ()) =
      Inr (VObject (Some \<lparr>title = ''t'', content = ''c''\<rparr>))"
    by (simp add: validate_call_def keychain_def)
  have h3: "snd (new_SeedStore ?col' ?p') = Inl TypeError"
    by (simp add: new_SeedStore_def keychain_def)
  have v: "validateAdress ?col' ?p' (initial 2) = (initial 2, [], Inl TypeError)"
    by (simp add: validateAdress_def new_SeedStore_def keychain_def)
  have a: "snd (snd (validateAdress ?col ?p (initial 2))) = Inr ()
      \<and> alerts (fst (snd (validateAdress ?col ?p (initial 2)))) = [(''success'', ''t'', ''c'')]
      \<and> navigations (fst (snd (validateAdress ?col ?p (initial 2)))) = []"
    using validate_outcomes[of ?col ?p "initial 2" TypeError "()"
        "\<lparr>title = ''t'', content = ''c''\<rparr>" TypeError] h1 h2
    by simp
  have b: "navigations (fst (snd (validateAdress ?col' ?p' (initial 2)))) = []
      \<and> alerts (fst (snd (validateAdress ?col' ?p' (initial 2)))) = []"
    using validate_outcomes[of ?col' ?p' "initial 2" TypeError "()"
        "\<lparr>title = ''t'', content = ''c''\<rparr>" TypeError] h3
    by simp
  show ?thesis using h1 h2 h3 v a b by simp
qed

subsection \<open>The buffer over a cycle\<close>

lemma below_refl: "\<forall>e\<in>set xs. (0::int) \<le> e \<Longrightarrow> below xs xs"
  by (simp add: list_all2_same)

lemma below_nonneg: "below new old \<Longrightarrow> \<forall>e\<in>set new. 0 \<le> e"
  by (induction rule: list_all2_induct) simp_all

lemma below_trans: "below a b \<Longrightarrow> below b c \<Longrightarrow> below a c"
  using list_all2_trans[of "\<lambda>x y. 0 \<le> x \<and> x \<le> y" "\<lambda>x y. 0 \<le> x \<and> x \<le> y"
      "\<lambda>x y::int. 0 \<le> x \<and> x \<le> y" a b c]
  by auto

lemma below_decay: "\<forall>e\<in>set xs. (0::int) \<le> e \<Longrightarrow> below (map (\<lambda>e. max 0 (e - 15)) xs) xs"
  by (induction xs) auto

lemma below_unscramble:
  assumes "\<forall>e\<in>set (scramble c). 0 \<le> e"
  shows "below (scramble (fst (unscramble c))) (scramble c)"
  using assms by (simp add: unscramble_cases below_decay below_refl)

lemma fst_run_pending_Suc:
  "fst (run_pending (Suc k) c) = fst (run_pending k (fst (unscramble c)))"
  by (simp split: prod.split)

lemma below_run_pending:
  "\<forall>e\<in>set (scramble c). 0 \<le> e \<Longrightarrow> below (scramble (fst (run_pending k c))) (scramble c)"
proof (induction k arbitrary: c)
  case 0
  then show ?case by (simp add: below_refl)
next
  case (Suc k)
  obtain c1 again where u: "unscramble c = (c1, again)" by (cases "unscramble c")
  have s1: "below (scramble c1) (scramble c)"
    using below_unscramble[OF Suc.prems] u by simp
  have "below (scramble (fst (run_pending k c1))) (scramble c1)"
    by (rule Suc.IH[OF below_nonneg[OF s1]])
  then have "below (scramble (fst (run_pending k c1))) (scramble c)"
    using s1 by (rule below_trans)
  then show ?case by (simp only: fst_run_pending_Suc u fst_conv)
qed

lemma below_refresh:
  "\<forall>e\<in>set (scramble c). 0 \<le> e \<Longrightarrow> below (scramble (fst (refresh n (c, k)))) (scramble c)"
proof (induction n arbitrary: c k)
  case 0
  then show ?case by (simp add: below_refl)
next
  case (Suc n)
  obtain c1 k1 where r: "run_pending k c = (c1, k1)" by (cases "run_pending k c")
  have s1: "below (scramble c1) (scramble c)"
    using below_run_pending[OF Suc.prems, of k] r by simp
  have "below (scramble (fst (refresh n (c1, k1)))) (scramble c1)"
    by (rule Suc.IH[OF below_nonneg[OF s1]])
  then show ?case using s1 by (simp add: r below_trans)
qed

text \<open>
  Claim C6. On a buffer of non-negative magnitudes a decay tick replaces every entry
  \<open>e\<close> by \<open>max 0 (e - 15)\<close>; no entry is negative after a call of \<^verbatim>\<open>unscramble\<close>; and
  over the refreshes of a cycle, however many callbacks are outstanding, the buffer keeps
  its length and every entry stays non-negative and never rises: its value after
  \<open>n + m\<close> refreshes is at most its value after \<open>n\<close>, which is at most the value it had
  at first.
\<close>

theorem decay_floor_monotone:
  assumes nonneg: "\<forall>e\<in>set (scramble c). 0 \<le> e"
  shows "(gt3 (frame c) \<longrightarrow>
            scramble (fst (unscramble c)) = map (\<lambda>e. max 0 (e - 15)) (scramble c))
       \<and> (\<forall>e\<in>set (scramble (fst (unscramble c))). 0 \<le> e)
       \<and> length (scramble (fst (refresh n (c, k)))) = length (scramble c)
       \<and> (\<forall>i<length (scramble c).
            0 \<le> scramble (fst (refresh (n + m) (c, k))) ! i
            \<and> scramble (fst (refresh (n + m) (c, k))) ! i \<le> scramble (fst (refresh n (c, k))) ! i
            \<and> scramble (fst (refresh n (c, k))) ! i \<le> scramble c ! i)"
proof -
  obtain c1 k1 where r: "refresh n (c, k) = (c1, k1)" by (cases "refresh n (c, k)")
  have a: "below (scramble c1) (scramble c)"
    using below_refresh[OF nonneg, of n k] r by simp
  have b: "below (scramble (fst (refresh m (c1, k1)))) (scramble c1)"
    by (rule below_refresh[OF below_nonneg[OF a]])
  have eq: "refresh (n + m) (c, k) = refresh m (c1, k1)" by (simp add: refresh_add r)
  have len: "length (scramble c1) = length (scramble c)"
    using a by (rule list_all2_lengthD)
  have len2: "length (scramble (fst (refresh m (c1, k1)))) = length (scramble c1)"
    using b by (rule list_all2_lengthD)
  show ?thesis
    using a b below_nonneg[OF below_unscramble[OF nonneg]] len len2
    by (auto simp: unscramble_cases r eq list_all2_conv_all_nth)
qed

theorem decay_floor_monotone_witness:
  "set (scramble \<lparr>frame = Num 4, message = [], scramble = [40, 3]\<rparr>) \<subseteq> {0..}
   \<and> gt3 (frame \<lparr>frame = Num 4, message = [], scramble = [40, 3]\<rparr>)
   \<and> scramble (fst (unscramble \<lparr>frame = Num 4, message = [], scramble = [40, 3]\<rparr>)) = [25, 0]
   \<and> scramble (fst (refresh 1 (\<lparr>frame = Num 4, message = [], scramble = [40, 3]\<rparr>, 1))) = [25, 0]
   \<and> scramble (fst (refresh (1 + 4) (\<lparr>frame = Num 4, message = [], scramble = [40, 3]\<rparr>, 1))) =
       [10, 0]"
proof -
  have h: "\<forall>e\<in>set (scramble \<lparr>frame = Num 4, message = [], scramble = [40, 3]\<rparr>). 0 \<le> e"
    by simp
  have v1: "refresh 1 (\<lparr>frame = Num 4, message = [], scramble = [40, 3]\<rparr>, 1) =
      (\<lparr>frame = Num 1, message = [], scramble = [25, 0]\<rparr>, 1)"
    by (simp add: unscramble_def)
  have v5: "refresh (1 + 4) (\<lparr>frame = Num 4, message = [], scramble = [40, 3]\<rparr>, 1) =
      (\<lparr>frame = Num 1, message = [], scramble = [10, 0]\<rparr>, 1)"
    by (simp only: refresh_add v1) (simp add: unscramble_def numeral_eq_Suc)
  show ?thesis
    using decay_floor_monotone[OF h, of 1 1 4] h v1 v5
    by (simp add: unscramble_def)
qed

lemma length_unscramble: "length (scramble (fst (unscramble c))) = length (scramble c)"
  by (simp add: unscramble_cases)

lemma length_randomBytes: "length (randomBytes n entropy) = n"
  by (simp add: randomBytes_def)

lemma length_received:
  "length (scramble c) = n \<Longrightarrow>
   length (scramble (fst (componentWillReceiveProps n entropy p np c))) = n"
  by (simp add: componentWillReceiveProps_def start_eq length_randomBytes)

text \<open>
  Claim C7. The buffer has \<^verbatim>\<open>ADDRESS_LENGTH\<close> entries in the initial state; the buffer of
  random bytes drawn when a new address arrives has as many; \<^verbatim>\<open>componentWillReceiveProps\<close>
  and \<^verbatim>\<open>unscramble\<close>, decay ticks included, keep the length; hence every instance the
  component can reach has a buffer of exactly \<^verbatim>\<open>ADDRESS_LENGTH\<close> entries.
\<close>

theorem buffer_length:
  "length (scramble (initial n)) = n
   \<and> length (randomBytes n entropy) = n
   \<and> (length (scramble c) = n \<longrightarrow>
        length (scramble (fst (componentWillReceiveProps n entropy p np c))) = n
        \<and> length (scramble (fst (unscramble c))) = n)
   \<and> (reachable n c' \<longrightarrow> length (scramble c') = n)"
proof -
  have "length (scramble c') = n" if "reachable n c'"
    using that
    by induction
       (simp_all add: initial_def length_received length_unscramble componentWillUnmount_def)
  then show ?thesis
    by (simp add: initial_def length_randomBytes length_received length_unscramble)
qed

theorem buffer_length_witness:
  "length (scramble (initial 3)) = 3
   \<and> reachable 3 (fst (unscramble (fst (componentWillReceiveProps 3 ((*) 77)
        \<lparr>account = \<lparr>addresses = Some [''A9'']\<rparr>, accountName = ''main'',
         accountMeta = \<lparr>meta_type = ''keychain''\<rparr>, receiveAddress = ''A9'', password = None,
         isSyncing = False, isTransitioning = False, isGeneratingReceiveAddress = True, t = id\<rparr>
        \<lparr>account = \<lparr>addresses = Some [''A9'', ''B9'']\<rparr>, accountName = ''main'',
         accountMeta = \<lparr>meta_type = ''keychain''\<rparr>, receiveAddress = ''B9'', password = None,
         isSyncing = False, isTransitioning = False, isGeneratingReceiveAddress = False, t = id\<rparr>
        (initial 3)))))
   \<and> scramble (fst (componentWillReceiveProps 3 ((*) 77)
        \<lparr>account = \<lparr>addresses = Some [''A9'']\<rparr>, accountName = ''main'',
         accountMeta = \<lparr>meta_type = ''keychain''\<rparr>, receiveAddress = ''A9'', password = None,
         isSyncing = False, isTransitioning = False, isGeneratingReceiveAddress = True, t = id\<rparr>
        \<lparr>account = \<lparr>addresses = Some [''A9'', ''B9'']\<rparr>, accountName = ''main'',
         accountMeta = \<lparr>meta_type = ''keychain''\<rparr>, receiveAddress = ''B9'', password = None,
         isSyncing = False, isTransitioning = False, isGeneratingReceiveAddress = False, t = id\<rparr>
        (initial 3))) = [0, 77, 154]
   \<and> length (scramble (fst (unscramble (fst (componentWillReceiveProps 3 ((*) 77)
        \<lparr>account = \<lparr>addresses = Some [''A9'']\<rparr>, accountName = ''main'',
         accountMeta = \<lparr>meta_type = ''keychain''\<rparr>, receiveAddress = ''A9'', password = None,
         isSyncing = False, isTransitioning = False, isGeneratingReceiveAddress = True, t = id\<rparr>
        \<lparr>account = \<lparr>addresses = Some [''A9'', ''B9'']\<rparr>, accountName = ''main'',
         accountMeta = \<lparr>meta_type = ''keychain''\<rparr>, receiveAddress = ''B9'', password = None,
         isSyncing = False, isTransitioning = False, isGeneratingReceiveAddress = False, t = id\<rparr>
        (initial 3)))))) = 3"
proof -
  let ?p = "\<lparr>account = \<lparr>addresses = Some [''A9'']\<rparr>, accountName = ''main'',
         accountMeta = \<lparr>meta_type = ''keychain''\<rparr>, receiveAddress = ''A9'', password = None,
         isSyncing = False, isTransitioning = False, isGeneratingReceiveAddress = True, t = id\<rparr>"
  let ?np = "\<lparr>account = \<lparr>addresses = Some [''A9'', ''B9'']\<rparr>, accountName = ''main'',
         accountMeta = \<lparr>meta_type = ''keychain''\<rparr>, receiveAddress = ''B9'', password = None,
         isSyncing = False, isTransitioning = False, isGeneratingReceiveAddress = False, t = id\<rparr>"
  let ?c = "fst (componentWillReceiveProps 3 ((*) 77) ?p ?np (initial 3))"
  have h1: "length (scramble (initial 3)) = 3" by (simp add: initial_def)
  have h2: "reachable 3 (fst (unscramble ?c))"
    by (intro reachable.animated reachable.received reachable.mounted)
  have v: "scramble ?c = [0, 77, 154]"
    by (simp add: componentWillReceiveProps_def start_def unscramble_def randomBytes_def
        initial_def upt_rec)
  show ?thesis
    using buffer_length[of 3 "(*) 77" "initial 3" ?p ?np "fst (unscramble ?c)"] h1 h2 v
    by simp
qed

subsection \<open>Rendering\<close>

text \<open>
  Claim C8. The paragraph has one fragment per character of the address. At a position
  whose magnitude is positive the fragment is the character \<^verbatim>\<open>byteToChar\<close> gives for that
  magnitude, whatever the address; at a position whose magnitude is 0 it is the character
  of the address. So an all-zero buffer renders the address itself.
\<close>

theorem render_contract:
  "length (render_address byteToChar p c) = length (receiveAddress p)
   \<and> (\<forall>i<length (receiveAddress p).
        (i < length (scramble c) \<and> 0 < scramble c ! i \<longrightarrow>
           render_address byteToChar p c ! i = [byteToChar (scramble c ! i)])
        \<and> (i < length (scramble c) \<and> scramble c ! i = 0 \<longrightarrow>
           render_address byteToChar p c ! i = [receiveAddress p ! i]))
   \<and> ((\<forall>e\<in>set (scramble c). e = 0) \<longrightarrow>
        concat (render_address byteToChar p c) = receiveAddress p)"
proof (intro conjI allI impI)
  show "length (render_address byteToChar p c) = length (receiveAddress p)"
    by (simp add: render_address_def)
next
  fix i assume "i < length (receiveAddress p)" "i < length (scramble c) \<and> 0 < scramble c ! i"
  then show "render_address byteToChar p c ! i = [byteToChar (scramble c ! i)]"
    by (simp add: render_address_def)
next
  fix i assume "i < length (receiveAddress p)" "i < length (scramble c) \<and> scramble c ! i = 0"
  then show "render_address byteToChar p c ! i = [receiveAddress p ! i]"
    by (simp add: render_address_def)
next
  assume z: "\<forall>e\<in>set (scramble c). e = 0"
  have "render_address byteToChar p c = map (\<lambda>ch. [ch]) (receiveAddress p)"
  proof (rule nth_equalityI)
    show "length (render_address byteToChar p c) = length (map (\<lambda>ch. [ch]) (receiveAddress p))"
      by (simp add: render_address_def)
    fix i assume "i < length (render_address byteToChar p c)"
    then have i: "i < length (receiveAddress p)" by (simp add: render_address_def)
    have "i < length (scramble c) \<Longrightarrow> scramble c ! i = 0" using z by simp
    then show "render_address byteToChar p c ! i = map (\<lambda>ch. [ch]) (receiveAddress p) ! i"
      using i by (auto simp: render_address_def)
  qed
  then show "concat (render_address byteToChar p c) = receiveAddress p"
    by (simp add: concat_map_singleton)
qed

theorem render_contract_witness:
  "(1::nat) < length ''AZ9'' \<and> (1::nat) < length [0, 66, 0 :: int] \<and> 0 < [0, 66, 0 :: int] ! 1
   \<and> [0, 66, 0 :: int] ! 0 = 0
   \<and> render_address char_of
        \<lparr>account = \<lparr>addresses = Some [''AZ9'']\<rparr>, accountName = ''main'',
         accountMeta = \<lparr>meta_type = ''keychain''\<rparr>, receiveAddress = ''AZ9'', password = None,
         isSyncing = False, isTransitioning = False, isGeneratingReceiveAddress = False, t = id\<rparr>
        \<lparr>frame = Num 1, message = [], scramble = [0, 66, 0]\<rparr> ! 1 = ''B''
   \<and> render_address char_of
        \<lparr>account = \<lparr>addresses = Some [''AZ9'']\<rparr>, accountName = ''main'',
         accountMeta = \<lparr>meta_type = ''keychain''\<rparr>, receiveAddress = ''AZ9'', password = None,
         isSyncing = False, isTransitioning = False, isGeneratingReceiveAddress = False, t = id\<rparr>
        \<lparr>frame = Num 1, message = [], scramble = [0, 66, 0]\<rparr> ! 0 = ''A''
   \<and> set (scramble (initial 3)) \<subseteq> {0}
   \<and> concat (render_address char_of
        \<lparr>account = \<lparr>addresses = Some [''AZ9'']\<rparr>, accountName = ''main'',
         accountMeta = \<lparr>meta_type = ''keychain''\<rparr>, receiveAddress = ''AZ9'', password = None,
         isSyncing = False, isTransitioning = False, isGeneratingReceiveAddress = False, t = id\<rparr>
        (initial 3)) = ''AZ9''"
proof -
  let ?p = "\<lparr>account = \<lparr>addresses = Some [''AZ9'']\<rparr>, accountName = ''main'',
         accountMeta = \<lparr>meta_type = ''keychain''\<rparr>, receiveAddress = ''AZ9'', password = None,
         isSyncing = False, isTransitioning = False, isGeneratingReceiveAddress = False, t = id\<rparr>"
  let ?c = "\<lparr>frame = Num 1, message = [], scramble = [0, 66, 0]\<rparr>"
  have z: "\<forall>e\<in>set (scramble (initial 3)). e = 0" by (simp add: initial_def)
  have b: "char_of (66::int) = CHR ''B''" by (simp add: char_of_def)
  have "render_address char_of ?p ?c ! 1 = [char_of ([0, 66, 0 :: int] ! 1)]"
    using render_contract[of char_of ?p ?c] by simp
  moreover have "render_address char_of ?p ?c ! 0 = ''A''"
    using render_contract[of char_of ?p ?c] by simp
  moreover have "concat (render_address char_of ?p (initial 3)) = ''AZ9''"
    using render_contract[of char_of ?p "initial 3"] z by simp
  ultimately show ?thesis using z b by (simp add: initial_def)
qed

section \<open>Properties of the market data actions\<close>

subsection \<open>Thunks and the store\<close>

lemma dispatched_chart_step:
  "dispatched (chart_step fetchMarketChart formatChartData currency run timeframe) =
   dispatched run"
  by (simp add: chart_step_def split: prod.split sum.split)

lemma dispatched_forEach:
  "dispatched (foldl (chart_step fetchMarketChart formatChartData currency) run timeframes) =
   dispatched run"
  by (induction timeframes arbitrary: run) (simp_all add: dispatched_chart_step)

lemma requested_chart_step:
  "requested (chart_step fetchMarketChart formatChartData currency run timeframe) =
   requested run @
     [\<lparr>ids = ''iota'', days = timeframeMap (if timeframe = ''1h'' then ''24h'' else timeframe),
       vs_currencies = currency\<rparr>]"
  by (simp add: chart_step_def Let_def split: sum.split)

text \<open>The thunk sends its four requests, the one for the last hour asking for a day.\<close>

lemma getChartData_requests:
  assumes "settings getState = Some s"
  shows "\<exists>run. (getChartData fetchMarketChart formatChartData getState
              :: exn + ('price, 'chart) thunk_run) = Inr run
     \<and> map days (requested run) = [Some 1, Some 7, Some 30, Some 1]
     \<and> map vs_currencies (requested run) =
         [toLowerCase s, toLowerCase s, toLowerCase s, toLowerCase s]"
  using assms
  by (simp add: getChartData_def currency_of_def requested_chart_step timeframeMap_def)

lemma logged_chart_step:
  assumes "snd (fetchChartData fetchMarketChart (length (requested run)) currency timeframe) =
      Inl e"
  shows "logged (chart_step fetchMarketChart formatChartData currency run timeframe) =
       logged run @ [e]
   \<and> chartData (chart_step fetchMarketChart formatChartData currency run timeframe) =
       chartData run"
proof -
  obtain r where
    "fetchChartData fetchMarketChart (length (requested run)) currency timeframe = (r, Inl e)"
    using assms
    by (cases "fetchChartData fetchMarketChart (length (requested run)) currency timeframe")
       (simp del: fetchChartData.simps)
  then show ?thesis by (simp add: chart_step_def del: fetchChartData.simps)
qed

text \<open>By contrast the promise of \<^verbatim>\<open>getMarketData\<close> dispatches the statistics it fetched.\<close>

lemma getMarketData_dispatches:
  "settings getState = Some s \<Longrightarrow> simple_price (toLowerCase s) = Inr iota \<Longrightarrow>
   dispatched_by (getMarketData simple_price getState) = [setMarketData (toLowerCase s) iota]"
  by (simp add: getMarketData_def currency_of_def dispatched_by_def)

text \<open>
  Claim C9. Whatever the state of the store, the price API's answers and the formatter,
  running the thunk of \<^verbatim>\<open>getChartData\<close> passes no action to \<^verbatim>\<open>dispatch\<close>: data that
  arrives goes into the local \<^verbatim>\<open>chartData\<close> only, a failure goes to the console, and a
  thunk that throws on reading the settings has dispatched nothing either. The store,
  under any reducer, is in the state it was in. When the settings are a string the thunk
  sends its four requests and returns whatever their outcome, with nothing dispatched.
\<close>

theorem getChartData_never_dispatches:
  "dispatched_by (getChartData fetchMarketChart formatChartData getState
      :: exn + ('price, 'chart) thunk_run) = []
   \<and> store_after reducer s (getChartData fetchMarketChart formatChartData getState
      :: exn + ('price, 'chart) thunk_run) = s
   \<and> (\<exists>run :: ('price, 'chart) thunk_run.
         getChartData fetchMarketChart formatChartData (getState\<lparr>settings := Some currency\<rparr>) =
           Inr run
         \<and> dispatched run = [] \<and> length (requested run) = 4)"
proof -
  have "dispatched_by (getChartData fetchMarketChart formatChartData getState
      :: exn + ('price, 'chart) thunk_run) = []"
    by (simp add: dispatched_by_def getChartData_def dispatched_chart_step split: sum.split)
  moreover have "\<exists>run :: ('price, 'chart) thunk_run.
         getChartData fetchMarketChart formatChartData (getState\<lparr>settings := Some currency\<rparr>) =
           Inr run
         \<and> dispatched run = [] \<and> length (requested run) = 4"
    by (simp add: getChartData_def currency_of_def dispatched_chart_step requested_chart_step)
  ultimately show ?thesis by (simp add: store_after_def)
qed

subsection \<open>Digits and \<^verbatim>\<open>toFixed\<close>\<close>

lemma is_digit_digit_char:
  assumes "0 \<le> d" "d < 10"
  shows "is_digit (digit_char d)"
proof -
  from assms have "d = 0 \<or> d = 1 \<or> d = 2 \<or> d = 3 \<or> d = 4
      \<or> d = 5 \<or> d = 6 \<or> d = 7 \<or> d = 8 \<or> d = 9"
    by presburger
  then show ?thesis
    by (elim disjE) (simp_all add: is_digit_def digit_char_def char_of_def)
qed

lemma digits_nonempty: "digits n \<noteq> []"
  by (subst digits.simps) (simp del: digits.simps)

lemma digits_are_digits: "0 \<le> n \<Longrightarrow> list_all is_digit (digits n)"
proof (induction n rule: digits.induct)
  case (1 n)
  show ?case
  proof (cases "n < 10")
    case True
    then show ?thesis
      using "1.prems"
      by (subst digits.simps) (simp add: is_digit_digit_char del: digits.simps)
  next
    case False
    then have "list_all is_digit (digits (n div 10))"
      using "1.IH" "1.prems" by (simp del: digits.simps)
    moreover have "is_digit (digit_char (n mod 10))"
      by (rule is_digit_digit_char) simp_all
    ultimately show ?thesis
      using False by (subst digits.simps) (simp del: digits.simps)
  qed
qed

lemma minus_no_digit: "is_digit ch \<Longrightarrow> ch \<noteq> CHR ''-''"
  by (auto simp: is_digit_def)

lemma two_decimals_body:
  assumes da: "list_all is_digit a" and db: "list_all is_digit b"
    and la: "a \<noteq> []" and lb: "length b = 2"
  shows "two_decimals (a @ ''.'' @ b)" and "two_decimals (''-'' @ a @ ''.'' @ b)"
proof -
  let ?body = "a @ ''.'' @ b"
  obtain x xs where a: "a = x # xs" using la by (cases a) auto
  have x: "x \<noteq> CHR ''-''" using da a minus_no_digit by simp
  have k3: "length ?body - 3 = length a" and k2: "length ?body - 2 = Suc (length a)"
    using lb by simp_all
  have t: "take (length a) ?body = a" and n: "?body ! length a = CHR ''.''"
    and dr: "drop (Suc (length a)) ?body = b"
    by (simp_all add: nth_append)
  have len: "4 \<le> length ?body" using lb a by simp
  have body: "4 \<le> length ?body \<and> list_all is_digit (take (length ?body - 3) ?body)
      \<and> ?body ! (length ?body - 3) = CHR ''.''
      \<and> list_all is_digit (drop (length ?body - 2) ?body)"
    unfolding k3 k2 t n dr using len da db by simp
  have hd: "(case ?body of [] \<Rightarrow> [] | ch # rest \<Rightarrow> if ch = CHR ''-'' then rest else ?body) = ?body"
    using x by (simp add: a)
  show "two_decimals ?body"
    unfolding two_decimals_def Let_def hd using body by blast
  have hd': "(case ''-'' @ ?body of [] \<Rightarrow> []
      | ch # rest \<Rightarrow> if ch = CHR ''-'' then rest else ''-'' @ ?body) = ?body"
    by simp
  show "two_decimals (''-'' @ ?body)"
    unfolding two_decimals_def Let_def hd' using body by blast
qed

lemma floor_half: "\<lfloor>(1::rat) / 2\<rfloor> = 0"
  by (simp add: floor_eq_iff)

lemma toFixed_two_decimals:
  assumes "\<bar>y\<bar> < 10 ^ 21"
  shows "two_decimals (toFixed (Finite y) 2)"
proof -
  define n where "n = \<lfloor>\<bar>y\<bar> * 10 ^ 2 + 1 / 2\<rfloor>"
  define m where "m = (if length (digits n) \<le> 2
      then replicate (2 + 1 - length (digits n)) (CHR ''0'') @ digits n else digits n)"
  define a b where "a = take (length m - 2) m" and "b = drop (length m - 2) m"
  have "0 \<le> \<bar>y\<bar> * 10 ^ 2 + 1 / 2" by simp
  then have n0: "0 \<le> n" unfolding n_def by (simp only: zero_le_floor)
  have zero: "is_digit (CHR ''0'')" by (simp add: is_digit_def)
  have d: "list_all is_digit m"
    using digits_are_digits[OF n0] zero by (simp add: m_def list_all_iff del: digits.simps)
  have l: "3 \<le> length m"
    using digits_nonempty[of n] by (auto simp: m_def simp del: digits.simps)
  have da: "list_all is_digit a" and db: "list_all is_digit b"
    using d unfolding a_def b_def list_all_iff by (meson in_set_takeD in_set_dropD)+
  have la: "a \<noteq> []" and lb: "length b = 2" using l by (auto simp: a_def b_def)
  have "toFixed (Finite y) 2 = (if y < 0 then ''-'' else []) @ a @ ''.'' @ b"
    using assms unfolding toFixed_def Let_def a_def b_def m_def n_def
    by (simp del: digits.simps)
  then show ?thesis
    using two_decimals_body[OF da db la lb] by (cases "y < 0") simp_all
qed

lemma toFixed_zero: "toFixed (Finite 0) 2 = ''0.00''"
  by (simp add: toFixed_def digit_char_def floor_half char_of_def)

subsection \<open>Rounding to binary64 stays below a power of two\<close>

lemma pow2_powi: "pow2 e = power_int 2 e"
  by (simp add: pow2_def power_int_def inverse_eq_divide power_one_over)

lemma pow2_pos: "0 < pow2 e"
  by (simp add: pow2_powi)

lemma pow2_nat: "pow2 (int k) = 2 ^ k"
  by (simp add: pow2_def)

lemma pow2_diff: "pow2 (a - b) = pow2 a / pow2 b"
  by (simp add: pow2_powi power_int_diff)

lemma pow2_le_nat: "pow2 a \<le> pow2 (int k) \<Longrightarrow> a \<le> int k"
  using power_int_le_imp_le_exp[of "2::rat" a "int k"] by (simp add: pow2_powi)

lemma ilog2_lower:
  assumes "0 < a"
  shows "pow2 (ilog2 a) \<le> a"
proof -
  obtain p q where pq: "quotient_of a = (p, q)" by (cases "quotient_of a")
  have q: "0 < q" using pq by (rule quotient_of_denom_pos)
  have a: "a = of_int p / of_int q" using pq by (rule quotient_of_div)
  have p: "0 < p" using assms q unfolding a by (simp add: zero_less_divide_iff)
  define d where "d = bitlen p - bitlen q"
  have il: "ilog2 a = (if pow2 d \<le> a then d else d - 1)"
    by (simp add: ilog2_def pq d_def Let_def)
  show ?thesis
  proof (cases "pow2 d \<le> a")
    case True
    then show ?thesis by (simp add: il)
  next
    case False
    have bp: "1 \<le> bitlen p" using p by (simp add: bitlen_alt_def)
    have bq: "0 \<le> bitlen q" by (rule bitlen_nonneg)
    have lo: "(2::int) ^ nat (bitlen p - 1) \<le> p" using bitlen_bounds[OF p] by simp
    have hi: "q < (2::int) ^ nat (bitlen q)" using bitlen_bounds[OF q] by simp
    have lo': "pow2 (bitlen p - 1) \<le> of_int p"
    proof -
      have "pow2 (bitlen p - 1) = of_int (2 ^ nat (bitlen p - 1))"
        using bp by (simp add: pow2_def)
      also have "\<dots> \<le> of_int p" using lo by (simp only: of_int_le_iff)
      finally show ?thesis .
    qed
    have hi': "of_int q \<le> pow2 (bitlen q)"
    proof -
      have "(of_int q :: rat) \<le> of_int (2 ^ nat (bitlen q))"
        using hi by (simp only: of_int_le_iff)
      also have "\<dots> = pow2 (bitlen q)" using bq by (simp add: pow2_def)
      finally show ?thesis .
    qed
    have "pow2 (d - 1) = pow2 (bitlen p - 1) / pow2 (bitlen q)"
      unfolding d_def pow2_diff[symmetric] by (simp add: algebra_simps)
    also have "\<dots> \<le> of_int p / of_int q"
      using lo' hi' q pow2_pos[of "bitlen p - 1"] pow2_pos[of "bitlen q"]
      by (intro frac_le) simp_all
    finally have "pow2 (d - 1) \<le> a" by (simp only: a)
    then show ?thesis using False by (simp only: il if_False)
  qed
qed

lemma round_half_even_le:
  assumes "x \<le> of_int N"
  shows "round_half_even x \<le> N"
proof -
  have f: "\<lfloor>x\<rfloor> \<le> N" using assms by (simp add: floor_le_iff)
  show ?thesis
  proof (cases "\<lfloor>x\<rfloor> = N")
    case True
    then have "x - of_int \<lfloor>x\<rfloor> \<le> 0" using assms by simp
    then show ?thesis using True by (simp add: round_half_even_def Let_def)
  next
    case False
    then have "\<lfloor>x\<rfloor> + 1 \<le> N" using f by simp
    then show ?thesis using f by (simp add: round_half_even_def Let_def)
  qed
qed

lemma round_half_even_nonneg: "0 \<le> x \<Longrightarrow> 0 \<le> round_half_even x"
  by (simp add: round_half_even_def Let_def)

lemma binary64_bound:
  assumes le: "\<bar>x\<bar> \<le> 2 ^ k" and k: "k < 1024"
  shows "\<exists>y. binary64 x = Finite y \<and> \<bar>y\<bar> \<le> 2 ^ k"
proof (cases "x = 0")
  case True
  then show ?thesis by (simp add: binary64_def)
next
  case False
  define a where "a = \<bar>x\<bar>"
  define q where "q = max (ilog2 a - 52) (- 1074)"
  define m where "m = round_half_even (a / pow2 q)"
  define v where "v = of_int m * pow2 q"
  have a0: "0 < a" using False by (simp add: a_def)
  have "pow2 (ilog2 a) \<le> pow2 (int k)"
    using ilog2_lower[OF a0] le by (simp add: pow2_nat a_def)
  then have e: "ilog2 a \<le> int k" by (rule pow2_le_nat)
  then have qk: "q \<le> int k" by (simp add: q_def)
  have N: "pow2 (int k - q) = of_int (2 ^ nat (int k - q))"
    using qk by (simp add: pow2_def)
  have "a / pow2 q \<le> pow2 (int k) / pow2 q"
    using le pow2_pos[of q] by (simp add: a_def pow2_nat divide_right_mono)
  then have "a / pow2 q \<le> of_int (2 ^ nat (int k - q))"
    by (simp only: pow2_diff[symmetric] N)
  then have mN: "m \<le> 2 ^ nat (int k - q)" unfolding m_def by (rule round_half_even_le)
  have m0: "0 \<le> m" unfolding m_def
    using a0 pow2_pos[of q] by (intro round_half_even_nonneg) simp
  have "v \<le> of_int (2 ^ nat (int k - q)) * pow2 q"
    unfolding v_def using mN pow2_pos[of q]
    by (intro mult_right_mono) simp_all
  also have "\<dots> = pow2 (int k - q) * pow2 q" by (simp only: N)
  also have "\<dots> = pow2 (int k)" using pow2_pos[of q] by (simp add: pow2_diff)
  finally have vk: "v \<le> 2 ^ k" by (simp add: pow2_nat)
  have v0: "0 \<le> v" unfolding v_def using m0 pow2_pos[of q] by simp
  have lt: "(2::rat) ^ k < 2 ^ 1024"
    using k by (intro power_strict_increasing) simp_all
  have top: "pow2 1024 = 2 ^ 1024" by (simp add: pow2_def)
  have small: "\<not> pow2 1024 \<le> v" unfolding top using vk lt by linarith
  have "binary64 x = Finite (if x < 0 then - v else v)"
    using False small
    by (simp add: binary64_def Let_def a_def[symmetric] q_def[symmetric] m_def[symmetric]
        v_def[symmetric])
  then show ?thesis using vk v0 by auto
qed

lemma rounded_change_in_range:
  assumes "\<bar>x\<bar> \<le> 10 ^ 17"
  shows "\<exists>y. js_divide (Math_round (js_times (Finite x) (Finite 100))) (Finite 100) = Finite y
           \<and> \<bar>y\<bar> < 10 ^ 21"
proof -
  have "\<bar>x * 100\<bar> \<le> 2 ^ 64" using assms by (simp add: abs_mult)
  then obtain u where u: "binary64 (x * 100) = Finite u" "\<bar>u\<bar> \<le> 2 ^ 64"
    using binary64_bound[of "x * 100" 64] by auto
  define r where "r = \<lfloor>u + 1 / 2\<rfloor>"
  have "u + 1 / 2 < of_int (2 ^ 64 + 1)" and "of_int (- (2 ^ 64)) \<le> u + 1 / 2"
    using u(2) by simp_all
  then have "r < 2 ^ 64 + 1" and "- (2 ^ 64) \<le> r"
    unfolding r_def by (simp_all only: floor_less_iff le_floor_iff)
  then have r: "\<bar>(of_int r :: rat) / 100\<bar> \<le> 2 ^ 58" by simp
  obtain y where y: "binary64 (of_int r / 100) = Finite y" "\<bar>y\<bar> \<le> 2 ^ 58"
    using binary64_bound[OF r] by auto
  have "js_divide (Math_round (js_times (Finite x) (Finite 100))) (Finite 100) = Finite y"
    by (simp add: u(1) r_def[symmetric] y(1))
  moreover have "\<bar>y\<bar> < 10 ^ 21" using y(2) by simp
  ultimately show ?thesis by blast
qed

subsection \<open>\<^verbatim>\<open>setMarketData\<close>\<close>

lemma Math_round_zero: "Math_round (Finite 0) = Finite 0"
  by (simp add: floor_half)

lemma binary64_zero: "binary64 0 = Finite 0"
  by (simp add: binary64_def)

text \<open>
  A 24-hour change that is \<^verbatim>\<open>NaN\<close> comes out as the string \<^verbatim>\<open>NaN\<close>, which has no
  decimal digits.
\<close>

theorem change24h_of_NaN:
  "change24h (setMarketData ''usd'' (object [(''usd_24h_change'', JNum NaN)])
      :: (unit, unit) action) = ''NaN''
   \<and> \<not> two_decimals (change24h (setMarketData ''usd'' (object [(''usd_24h_change'', JNum NaN)])
      :: (unit, unit) action))"
  by (simp add: setMarketData_def get_def object_def parseFloat_def toFixed_def
      two_decimals_def)

text \<open>
  Claim C10, as the code has it. For every currency string and every data object whose
  fields are numbers, \<^verbatim>\<open>null\<close> or absent, \<^verbatim>\<open>setMarketData\<close> returns a
  \<^verbatim>\<open>SET_STATISTICS\<close> action in which \<^verbatim>\<open>price\<close> is the currency field, or 0 when that
  is absent or falsy, and \<^verbatim>\<open>mcap\<close> and \<^verbatim>\<open>volume\<close> are the rounded values of their
  fields, 0 when absent. \<^verbatim>\<open>change24h\<close> is \<^verbatim>\<open>0.00\<close> when the change is absent or
  \<^verbatim>\<open>null\<close>, and it is a string with exactly two decimal digits whenever the number
  handed to \<^verbatim>\<open>toFixed\<close>, the change times 100, rounded and divided by 100, is finite and
  of magnitude below \<open>10\<^sup>2\<^sup>1\<close>; it is so for every finite change of magnitude up to
  \<open>10\<^sup>1\<^sup>7\<close>.
\<close>

theorem setMarketData_statistics:
  "(setMarketData currency data :: ('price, 'chart) action) =
     SET_STATISTICS
       (if ToBoolean (data currency) then data currency else JNum (Finite 0))
       (if data (currency @ ''_market_cap'') = JUndefined then Finite 0
        else Math_round (ToNumber (data (currency @ ''_market_cap''))))
       (if data (currency @ ''_24h_vol'') = JUndefined then Finite 0
        else Math_round (ToNumber (data (currency @ ''_24h_vol''))))
       (toFixed (js_divide
          (Math_round (js_times
             (ToNumber (get data (currency @ ''_24h_change'') (JNum (Finite 0)))) (Finite 100)))
          (Finite 100)) 2)
   \<and> (data (currency @ ''_24h_change'') = JUndefined \<or> data (currency @ ''_24h_change'') = JNull
        \<longrightarrow> change24h (setMarketData currency data :: ('price, 'chart) action) = ''0.00'')
   \<and> (js_divide
          (Math_round (js_times
             (ToNumber (get data (currency @ ''_24h_change'') (JNum (Finite 0)))) (Finite 100)))
          (Finite 100) = Finite y \<and> \<bar>y\<bar> < 10 ^ 21
        \<longrightarrow> two_decimals (change24h (setMarketData currency data :: ('price, 'chart) action)))
   \<and> (data (currency @ ''_24h_change'') = JNum (Finite x) \<and> \<bar>x\<bar> \<le> 10 ^ 17
        \<longrightarrow> two_decimals (change24h (setMarketData currency data :: ('price, 'chart) action)))"
proof (intro conjI impI)
  show "(setMarketData currency data :: ('price, 'chart) action) =
     SET_STATISTICS
       (if ToBoolean (data currency) then data currency else JNum (Finite 0))
       (if data (currency @ ''_market_cap'') = JUndefined then Finite 0
        else Math_round (ToNumber (data (currency @ ''_market_cap''))))
       (if data (currency @ ''_24h_vol'') = JUndefined then Finite 0
        else Math_round (ToNumber (data (currency @ ''_24h_vol''))))
       (toFixed (js_divide
          (Math_round (js_times
             (ToNumber (get data (currency @ ''_24h_change'') (JNum (Finite 0)))) (Finite 100)))
          (Finite 100)) 2)"
    by (simp add: setMarketData_def Let_def get_def js_or_zero_def floor_half parseFloat_def
        split: jsval.split)
next
  assume "data (currency @ ''_24h_change'') = JUndefined
      \<or> data (currency @ ''_24h_change'') = JNull"
  then have "ToNumber (get data (currency @ ''_24h_change'') (JNum (Finite 0))) = Finite 0"
    by (auto simp: get_def)
  then show "change24h (setMarketData currency data :: ('price, 'chart) action) = ''0.00''"
    by (simp add: setMarketData_def Let_def parseFloat_def binary64_zero Math_round_zero
        toFixed_zero del: Math_round.simps)
next
  assume "js_divide
          (Math_round (js_times
             (ToNumber (get data (currency @ ''_24h_change'') (JNum (Finite 0)))) (Finite 100)))
          (Finite 100) = Finite y \<and> \<bar>y\<bar> < 10 ^ 21"
  then show "two_decimals (change24h (setMarketData currency data :: ('price, 'chart) action))"
    by (simp add: setMarketData_def Let_def parseFloat_def toFixed_two_decimals)
next
  assume x: "data (currency @ ''_24h_change'') = JNum (Finite x) \<and> \<bar>x\<bar> \<le> 10 ^ 17"
  then have g: "ToNumber (get data (currency @ ''_24h_change'') (JNum (Finite 0))) = Finite x"
    by (simp add: get_def)
  obtain z where "js_divide (Math_round (js_times (Finite x) (Finite 100))) (Finite 100) = Finite z"
    and "\<bar>z\<bar> < 10 ^ 21"
    using rounded_change_in_range[of x] x by blast
  then show "two_decimals (change24h (setMarketData currency data :: ('price, 'chart) action))"
    unfolding setMarketData_def Let_def parseFloat_def g
    by (simp add: toFixed_two_decimals del: js_times.simps js_divide.simps Math_round.simps)
qed

theorem setMarketData_statistics_witness:
  "js_divide
     (Math_round (js_times
        (ToNumber (get (object [(''usd'', JNum (Finite (1 / 4))),
                                (''usd_market_cap'', JNum (Finite (7001234 / 10))),
                                (''usd_24h_change'', JNum (Finite (3 / 2)))])
           (''usd'' @ ''_24h_change'') (JNum (Finite 0)))) (Finite 100)))
     (Finite 100) = Finite (3 / 2)
   \<and> \<bar>3 / 2 :: rat\<bar> < 10 ^ 21
   \<and> change24h (setMarketData ''usd''
        (object [(''usd'', JNum (Finite (1 / 4))),
                 (''usd_market_cap'', JNum (Finite (7001234 / 10))),
                 (''usd_24h_change'', JNum (Finite (3 / 2)))]) :: (unit, unit) action) = ''1.50''
   \<and> two_decimals (change24h (setMarketData ''usd''
        (object [(''usd'', JNum (Finite (1 / 4))),
                 (''usd_market_cap'', JNum (Finite (7001234 / 10))),
                 (''usd_24h_change'', JNum (Finite (3 / 2)))]) :: (unit, unit) action))
   \<and> price (setMarketData ''usd''
        (object [(''usd'', JNum (Finite (1 / 4))),
                 (''usd_market_cap'', JNum (Finite (7001234 / 10))),
                 (''usd_24h_change'', JNum (Finite (3 / 2)))]) :: (unit, unit) action) =
       JNum (Finite (1 / 4))
   \<and> mcap (setMarketData ''usd''
        (object [(''usd'', JNum (Finite (1 / 4))),
                 (''usd_market_cap'', JNum (Finite (7001234 / 10))),
                 (''usd_24h_change'', JNum (Finite (3 / 2)))]) :: (unit, unit) action) =
       Finite 700123
   \<and> volume (setMarketData ''usd''
        (object [(''usd'', JNum (Finite (1 / 4))),
                 (''usd_market_cap'', JNum (Finite (7001234 / 10))),
                 (''usd_24h_change'', JNum (Finite (3 / 2)))]) :: (unit, unit) action) =
       Finite 0"
proof -
  let ?data = "object [(''usd'', JNum (Finite (1 / 4))),
                 (''usd_market_cap'', JNum (Finite (7001234 / 10))),
                 (''usd_24h_change'', JNum (Finite (3 / 2)))]"
  have h1: "js_divide
     (Math_round (js_times
        (ToNumber (get ?data (''usd'' @ ''_24h_change'') (JNum (Finite 0)))) (Finite 100)))
     (Finite 100) = Finite (3 / 2)"
    by code_simp
  have h2: "\<bar>3 / 2 :: rat\<bar> < 10 ^ 21" by simp
  have f: "?data ''usd'' = JNum (Finite (1 / 4))"
    "?data (''usd'' @ ''_market_cap'') = JNum (Finite (7001234 / 10))"
    "?data (''usd'' @ ''_24h_vol'') = JUndefined"
    by (simp_all add: object_def)
  have r: "Math_round (Finite (7001234 / 10)) = Finite 700123" by code_simp
  have c: "toFixed (Finite (3 / 2)) 2 = ''1.50''" by code_simp
  have t: "setMarketData ''usd'' ?data =
      (SET_STATISTICS (JNum (Finite (1 / 4))) (Finite 700123) (Finite 0) ''1.50''
         :: (unit, unit) action)"
    using setMarketData_statistics[of "''usd''" ?data "3 / 2" "3 / 2", where ?'price = unit and ?'chart = unit]
    unfolding f h1 c using r by (simp del: Math_round.simps)
  have "two_decimals (change24h (setMarketData ''usd'' ?data :: (unit, unit) action))"
    using setMarketData_statistics[of "''usd''" ?data "3 / 2" "3 / 2", where ?'price = unit and ?'chart = unit]
      h1 h2 by blast
  then show ?thesis
    using h1 h2 unfolding t by simp
qed

end
